theory Spec2Isabelle
  imports Complex_Main
begin

section \<open>Arrays and the numerical library\<close>

text \<open>
  The analyser works on NumPy arrays of floats. An array is modelled by its shape and an
  index function, a float by a real number: every comparison, count and threshold of the
  source is kept as written, and rounding is left out. Exceptions of the library are
  values of \<open>error\<close>; a \<open>nan\<close> that the library returns with a warning only (the mean
  of an empty slice) is \<open>None\<close>.
\<close>

datatype error = IndexError | ValueError

text \<open>An exception leaves the function at once: the rest runs on a result only.\<close>

definition and_then :: "error + 'a \<Rightarrow> ('a \<Rightarrow> error + 'b) \<Rightarrow> error + 'b" where
  "and_then m f = (case m of Inl e \<Rightarrow> Inl e | Inr x \<Rightarrow> f x)"

record pixel_buffer =
  pb_height :: nat
  pb_width :: nat
  pb_channels :: nat
  pb_at :: "nat \<Rightarrow> nat \<Rightarrow> nat \<Rightarrow> real"

record luminance_map =
  lm_height :: nat
  lm_width :: nat
  lm_at :: "nat \<Rightarrow> nat \<Rightarrow> real"

text \<open>\<open>int(x)\<close> of a Python float truncates toward zero.\<close>

definition py_int :: "real \<Rightarrow> int" where
  "py_int x = (if 0 \<le> x then \<lfloor>x\<rfloor> else \<lceil>x\<rceil>)"

text \<open>\<open>brt[y, :]\<close> and \<open>brt[:, x]\<close>: an integer index counts from the end when it is
  negative and raises IndexError outside \<open>-n \<le> i < n\<close>.\<close>

definition np_index :: "nat \<Rightarrow> int \<Rightarrow> error + nat" where
  "np_index n i =
     (if 0 \<le> i \<and> i < int n then Inr (nat i)
      else if - int n \<le> i \<and> i < 0 then Inr (nat (int n + i))
      else Inl IndexError)"

definition get_row :: "luminance_map \<Rightarrow> int \<Rightarrow> error + real list" where
  "get_row brt y =
     (case np_index (lm_height brt) y of
        Inl e \<Rightarrow> Inl e
      | Inr j \<Rightarrow> Inr (map (lm_at brt j) [0..<lm_width brt]))"

definition get_col :: "luminance_map \<Rightarrow> int \<Rightarrow> error + real list" where
  "get_col brt x =
     (case np_index (lm_width brt) x of
        Inl e \<Rightarrow> Inl e
      | Inr j \<Rightarrow> Inr (map (\<lambda>y. lm_at brt y j) [0..<lm_height brt]))"

text \<open>\<open>brt[r0:r1, c0:c1]\<close> with non-negative bounds, which a slice clips to the shape;
  the statistics taken of it read it flattened, row by row.\<close>

definition slice2 :: "luminance_map \<Rightarrow> nat \<Rightarrow> nat \<Rightarrow> nat \<Rightarrow> nat \<Rightarrow> real list" where
  "slice2 brt r0 r1 c0 c1 =
     concat (map (\<lambda>y. map (lm_at brt y) [c0..<min c1 (lm_width brt)])
                 [r0..<min r1 (lm_height brt)])"

definition flat :: "luminance_map \<Rightarrow> real list" where
  "flat brt = slice2 brt 0 (lm_height brt) 0 (lm_width brt)"

definition mean_of :: "real list \<Rightarrow> real" where
  "mean_of xs = sum_list xs / real (length xs)"

text \<open>\<open>np.mean\<close>: of an empty array it warns and returns \<open>nan\<close>.\<close>

definition np_mean :: "real list \<Rightarrow> real option" where
  "np_mean xs = (if xs = [] then None else Some (mean_of xs))"

text \<open>\<open>np.max\<close>: of an empty array it raises ValueError.\<close>

definition np_max :: "real list \<Rightarrow> error + real" where
  "np_max xs = (if xs = [] then Inl ValueError else Inr (Max (set xs)))"

text \<open>\<open>np.std\<close> with its default \<open>ddof = 0\<close>: the root of the mean of the squared
  deviations from the mean.\<close>

definition np_std :: "real list \<Rightarrow> real" where
  "np_std xs = sqrt (mean_of (map (\<lambda>x. (x - mean_of xs)\<^sup>2) xs))"

text \<open>\<open>np.percentile\<close> with its default linear interpolation between the two order
  statistics around the position \<open>(n - 1) * q / 100\<close>. On an empty array NumPy from 1.22
  on raises IndexError (older releases return \<open>nan\<close>).\<close>

definition np_percentile :: "real list \<Rightarrow> real \<Rightarrow> error + real" where
  "np_percentile a q =
     (if a = [] then Inl IndexError
      else let s = sort a;
               n = length a;
               pos = real (n - 1) * (q / 100);
               lo = nat \<lfloor>pos\<rfloor>;
               hi = min (lo + 1) (n - 1);
               g = pos - real lo
           in Inr (s ! lo + (s ! hi - s ! lo) * g))"

definition np_median :: "real list \<Rightarrow> real" where
  "np_median a =
     (let s = sort a; n = length a
      in if odd n then s ! (n div 2) else (s ! (n div 2 - 1) + s ! (n div 2)) / 2)"

text \<open>\<open>np.diff\<close> of a one-dimensional array: the differences of neighbours.\<close>

fun np_diff :: "int list \<Rightarrow> int list" where
  "np_diff (x # y # zs) = (y - x) # np_diff (y # zs)"
| "np_diff _ = []"

text \<open>\<open>np.sum\<close> of a boolean mask is the number of elements that satisfy it.\<close>

definition count_where :: "('a \<Rightarrow> bool) \<Rightarrow> 'a list \<Rightarrow> nat" where
  "count_where P xs = length (filter P xs)"

section \<open>The analysers\<close>

subsection \<open>brightness\<close>

text \<open>\<open>pixels[..., k]\<close> raises IndexError when the last axis has no index \<open>k\<close>.\<close>

definition brightness :: "pixel_buffer \<Rightarrow> error + luminance_map" where
  "brightness pixels =
     (if pb_channels pixels < 3 then Inl IndexError
      else Inr \<lparr> lm_height = pb_height pixels,
                 lm_width = pb_width pixels,
                 lm_at = (\<lambda>y x. 0.2126 * pb_at pixels y x 0
                               + 0.7152 * pb_at pixels y x 1
                               + 0.0722 * pb_at pixels y x 2) \<rparr>)"

subsection \<open>analyze_brightness_distribution\<close>

record distribution_report =
  black :: real
  very_dark :: real
  dark :: real
  mid :: real
  bright :: real
  hot :: real
  mean :: real
  median :: real
  p95 :: real
  p99 :: real
  max_brightness :: real

definition is_black :: "real \<Rightarrow> bool" where "is_black v = (v < 0.02)"
definition is_vdark :: "real \<Rightarrow> bool" where "is_vdark v = (v \<ge> 0.02 \<and> v < 0.06)"
definition is_dark :: "real \<Rightarrow> bool" where "is_dark v = (v \<ge> 0.06 \<and> v < 0.15)"
definition is_mid :: "real \<Rightarrow> bool" where "is_mid v = (v \<ge> 0.15 \<and> v < 0.40)"
definition is_bright :: "real \<Rightarrow> bool" where "is_bright v = (v \<ge> 0.40 \<and> v < 0.70)"
definition is_hot :: "real \<Rightarrow> bool" where "is_hot v = (v \<ge> 0.70)"

text \<open>On an array of size 0 the six divisions by \<open>total\<close> give \<open>nan\<close> with a warning,
  and building the dictionary then raises: \<open>np.percentile\<close> first (IndexError), and where
  it does not, \<open>np.max\<close> (ValueError).\<close>

definition analyze_brightness_distribution :: "luminance_map \<Rightarrow> error + distribution_report" where
  "analyze_brightness_distribution brt =
     (let v = flat brt; total = length v in
      and_then (np_percentile v 95) (\<lambda>q95.
      and_then (np_percentile v 99) (\<lambda>q99.
      and_then (np_max v) (\<lambda>m.
      Inr \<lparr> black = real (count_where is_black v) / real total * 100,
            very_dark = real (count_where is_vdark v) / real total * 100,
            dark = real (count_where is_dark v) / real total * 100,
            mid = real (count_where is_mid v) / real total * 100,
            bright = real (count_where is_bright v) / real total * 100,
            hot = real (count_where is_hot v) / real total * 100,
            mean = mean_of v * 100,
            median = np_median v * 100,
            p95 = q95 * 100,
            p99 = q99 * 100,
            max_brightness = m * 100 \<rparr>))))"

subsection \<open>count_peaks and analyze_grid_lines\<close>

definition count_peaks :: "real list \<Rightarrow> real \<Rightarrow> int" where
  "count_peaks arr threshold =
     (let above = map (\<lambda>v. v > threshold) arr;
          edges = np_diff (map (\<lambda>b. if b then 1 else 0) above)
      in int (count_where (\<lambda>e. e = 1) edges))"

record scan_result =
  floor_brightness :: real
  line_brightness :: real
  contrast_ratio :: real
  peak_count :: int

text \<open>Lines 72-73 and 89-90: the floor level as it is used for the division.\<close>

definition clamp_floor :: "real \<Rightarrow> real" where
  "clamp_floor floor_level = (if floor_level < 0.001 then 0.001 else floor_level)"

text \<open>The body that the row scan and the column scan of \<open>analyze_grid_lines\<close> share.\<close>

definition scan_line :: "real list \<Rightarrow> error + scan_result" where
  "scan_line seq =
     and_then (np_percentile seq 20) (\<lambda>p20.
     and_then (np_percentile seq 90) (\<lambda>line_level.
      let floor_level = clamp_floor p20;
          contrast = line_level / floor_level;
          peaks = count_peaks seq (floor_level + (line_level - floor_level) * 0.3)
      in Inr \<lparr> floor_brightness = floor_level * 100,
               line_brightness = line_level * 100,
               contrast_ratio = contrast,
               peak_count = peaks \<rparr>))"

definition h_scans :: "(string \<times> real) list" where
  "h_scans = [(''h_40%'', 0.40), (''h_45%'', 0.45), (''h_50%'', 0.50),
              (''h_55%'', 0.55), (''h_60%'', 0.60)]"

definition v_scans :: "(string \<times> real) list" where
  "v_scans = [(''v_40%'', 0.40), (''v_50%'', 0.50), (''v_60%'', 0.60)]"

fun scan_rows :: "luminance_map \<Rightarrow> (string \<times> real) list \<Rightarrow> error + (string \<times> scan_result) list" where
  "scan_rows brt [] = Inr []"
| "scan_rows brt ((name, y_frac) # rest) =
     and_then (get_row brt (py_int (y_frac * real (lm_height brt)))) (\<lambda>row.
     and_then (scan_line row) (\<lambda>r.
     and_then (scan_rows brt rest) (\<lambda>rs. Inr ((name, r) # rs))))"

fun scan_cols :: "luminance_map \<Rightarrow> (string \<times> real) list \<Rightarrow> error + (string \<times> scan_result) list" where
  "scan_cols brt [] = Inr []"
| "scan_cols brt ((name, x_frac) # rest) =
     and_then (get_col brt (py_int (x_frac * real (lm_width brt)))) (\<lambda>col.
     and_then (scan_line col) (\<lambda>r.
     and_then (scan_cols brt rest) (\<lambda>rs. Inr ((name, r) # rs))))"

text \<open>The result dictionary, in insertion order (its eight keys are distinct).\<close>

definition analyze_grid_lines :: "luminance_map \<Rightarrow> error + (string \<times> scan_result) list" where
  "analyze_grid_lines brt =
     and_then (scan_rows brt h_scans) (\<lambda>hs.
     and_then (scan_cols brt v_scans) (\<lambda>vs. Inr (hs @ vs)))"

subsection \<open>analyze_color_channels\<close>

record color_report =
  cyan_teal :: real
  warm_red_orange :: real
  purple_magenta :: real
  green :: real
  white_hot :: real

text \<open>The three channels of every pixel, row by row.\<close>

definition rgb_of :: "pixel_buffer \<Rightarrow> (real \<times> real \<times> real) list" where
  "rgb_of img =
     concat (map (\<lambda>y. map (\<lambda>x. (pb_at img y x 0, pb_at img y x 1, pb_at img y x 2))
                            [0..<pb_width img])
                 [0..<pb_height img])"

definition is_cyan :: "real \<times> real \<times> real \<Rightarrow> bool" where
  "is_cyan = (\<lambda>(r, g, b). g > 0.1 \<and> b > 0.1 \<and> r < g * 0.3)"

definition is_warm :: "real \<times> real \<times> real \<Rightarrow> bool" where
  "is_warm = (\<lambda>(r, g, b). r > 0.1 \<and> r > g * 1.5 \<and> r > b * 1.5)"

definition is_purple :: "real \<times> real \<times> real \<Rightarrow> bool" where
  "is_purple = (\<lambda>(r, g, b). r > 0.1 \<and> b > 0.1 \<and> g < r * 0.5)"

definition is_green :: "real \<times> real \<times> real \<Rightarrow> bool" where
  "is_green = (\<lambda>(r, g, b). g > 0.1 \<and> g > r * 2 \<and> g > b * 1.5)"

definition is_white :: "real \<times> real \<times> real \<Rightarrow> bool" where
  "is_white = (\<lambda>(r, g, b). r > 0.5 \<and> g > 0.5 \<and> b > 0.5)"

text \<open>On an image of size 0 the percentages are \<open>nan\<close> (a warning, no exception); \<open>main\<close>
  does not get there, since \<open>analyze_brightness_distribution\<close> has raised before.\<close>

definition analyze_color_channels :: "pixel_buffer \<Rightarrow> error + color_report" where
  "analyze_color_channels img =
     (if pb_channels img < 3 then Inl IndexError
      else let px = rgb_of img; size = length px in
        Inr \<lparr> cyan_teal = real (count_where is_cyan px) / real size * 100,
              warm_red_orange = real (count_where is_warm px) / real size * 100,
              purple_magenta = real (count_where is_purple px) / real size * 100,
              green = real (count_where is_green px) / real size * 100,
              white_hot = real (count_where is_white px) / real size * 100 \<rparr>)"

subsection \<open>analyze_regions\<close>

record region_report =
  center_mean :: "real option"
  center_p95 :: real
  bottom_mean :: "real option"
  bottom_p95 :: real
  top_mean :: "real option"
  top_p95 :: real
  left_mean :: "real option"
  right_mean :: "real option"

text \<open>A slice bound \<open>int(h*f)\<close>; it is never negative.\<close>

definition frac_idx :: "nat \<Rightarrow> real \<Rightarrow> nat" where
  "frac_idx n f = nat (py_int (real n * f))"

definition scale100 :: "real option \<Rightarrow> real option" where
  "scale100 m = map_option (\<lambda>v. v * 100) m"

definition analyze_regions :: "luminance_map \<Rightarrow> error + region_report" where
  "analyze_regions brt =
     (let h = lm_height brt; w = lm_width brt;
          center = slice2 brt (frac_idx h 0.3) (frac_idx h 0.7) (frac_idx w 0.3) (frac_idx w 0.7);
          bottom = slice2 brt (frac_idx h 0.6) (frac_idx h 0.9) (frac_idx w 0.2) (frac_idx w 0.8);
          top = slice2 brt (frac_idx h 0.1) (frac_idx h 0.3) (frac_idx w 0.2) (frac_idx w 0.8);
          left = slice2 brt (frac_idx h 0.3) (frac_idx h 0.7) 0 (frac_idx w 0.15);
          right = slice2 brt (frac_idx h 0.3) (frac_idx h 0.7) (frac_idx w 0.85) w
      in and_then (np_percentile center 95) (\<lambda>c95.
         and_then (np_percentile bottom 95) (\<lambda>b95.
         and_then (np_percentile top 95) (\<lambda>t95.
         Inr \<lparr> center_mean = scale100 (np_mean center), center_p95 = c95 * 100,
               bottom_mean = scale100 (np_mean bottom), bottom_p95 = b95 * 100,
               top_mean = scale100 (np_mean top), top_p95 = t95 * 100,
               left_mean = scale100 (np_mean left),
               right_mean = scale100 (np_mean right) \<rparr>))))"

subsection \<open>analyze_reflection_quality\<close>

record reflection_report =
  floor_brightness_std :: real
  floor_max_brightness :: real
  floor_has_variation :: string

text \<open>On an empty floor region \<open>np.std\<close> only warns, and \<open>np.max\<close> raises.\<close>

definition analyze_reflection_quality :: "luminance_map \<Rightarrow> error + reflection_report" where
  "analyze_reflection_quality brt =
     (let h = lm_height brt; w = lm_width brt;
          floor = slice2 brt (frac_idx h 0.6) (frac_idx h 0.8) (frac_idx w 0.2) (frac_idx w 0.8);
          floor_std = np_std floor * 100
      in and_then (np_max floor) (\<lambda>m.
         Inr \<lparr> floor_brightness_std = floor_std,
               floor_max_brightness = m * 100,
               floor_has_variation =
                 (if floor_std > 3.0 then ''YES'' else if floor_std > 1.0 then ''WEAK'' else ''NO'') \<rparr>))"

subsection \<open>format_report\<close>

text \<open>The report is text. Its content is kept, section by section: the resolution, the
  numbers it is given, the two averages and the grid verdict it derives, and the lines of
  the overall assessment. A verdict and an issue stand for the line of text that starts
  with their name.\<close>

datatype verdict = EXCELLENT | GOOD | WEAK | INVISIBLE

datatype issue = TOO_DARK | NO_GRID_FLOOR | LOW_CONTRAST | NO_CYAN | NO_SSR | BLOOM_OVERLOAD

datatype assessment = No_major_issues | Issue issue

record report =
  resolution :: "nat \<times> nat"
  r_distribution :: distribution_report
  r_grid :: "(string \<times> scan_result) list"
  avg_contrast :: real
  avg_peaks :: real
  grid_verdict :: verdict
  r_colors :: color_report
  r_regions :: region_report
  r_reflections :: reflection_report
  issues :: "issue list"
  overall :: "assessment list"

text \<open>\<open>np.mean\<close> over the values of \<open>grid\<close>; \<open>analyze_grid_lines\<close> returns eight of them
  (of none, the mean would be \<open>nan\<close>).\<close>

definition format_report ::
  "distribution_report \<Rightarrow> (string \<times> scan_result) list \<Rightarrow> color_report \<Rightarrow> region_report
     \<Rightarrow> reflection_report \<Rightarrow> nat \<times> nat \<Rightarrow> report" where
  "format_report distribution grid colors regions reflections dims =
     (let all_contrasts = map (\<lambda>(name, d). contrast_ratio d) grid;
          all_peaks = map (\<lambda>(name, d). real_of_int (peak_count d)) grid;
          avg_c = mean_of all_contrasts;
          avg_p = mean_of all_peaks;
          v = (if avg_c > 5.0 \<and> avg_p > 3 then EXCELLENT
               else if avg_c > 3.0 \<and> avg_p > 2 then GOOD
               else if avg_c > 1.5 then WEAK
               else INVISIBLE);
          iss = (if black distribution > 70 then [TOO_DARK] else [])
              @ (if black distribution > 50 \<and> dark distribution < 5 then [NO_GRID_FLOOR] else [])
              @ (if avg_c < 2.0 then [LOW_CONTRAST] else [])
              @ (if cyan_teal colors < 1.0 then [NO_CYAN] else [])
              @ (if floor_has_variation reflections = ''NO'' then [NO_SSR] else [])
              @ (if hot distribution > 15 then [BLOOM_OVERLOAD] else [])
      in \<lparr> resolution = dims, r_distribution = distribution, r_grid = grid,
            avg_contrast = avg_c, avg_peaks = avg_p, grid_verdict = v,
            r_colors = colors, r_regions = regions, r_reflections = reflections,
            issues = iss,
            overall = (if iss = [] then [No_major_issues] else map Issue iss) \<rparr>)"

subsection \<open>main\<close>

text \<open>The analysis of a loaded image, from \<open>brt = brightness(img)\<close> to the report that is
  printed; choosing and decoding the file is outside.\<close>

definition main :: "pixel_buffer \<Rightarrow> error + report" where
  "main img =
     and_then (brightness img) (\<lambda>brt.
     let dims = (pb_width img, pb_height img) in
     and_then (analyze_brightness_distribution brt) (\<lambda>distribution.
     and_then (analyze_grid_lines brt) (\<lambda>grid.
     and_then (analyze_color_channels img) (\<lambda>colors.
     and_then (analyze_regions brt) (\<lambda>regions.
     and_then (analyze_reflection_quality brt) (\<lambda>reflections.
     Inr (format_report distribution grid colors regions reflections dims)))))))"

section \<open>Example inputs\<close>

definition black_image :: "nat \<Rightarrow> nat \<Rightarrow> nat \<Rightarrow> pixel_buffer" where
  "black_image h w c =
     \<lparr> pb_height = h, pb_width = w, pb_channels = c, pb_at = (\<lambda>y x k. 0) \<rparr>"

definition all_black :: "pixel_buffer \<Rightarrow> bool" where
  "all_black img \<longleftrightarrow>
     pb_channels img = 3
     \<and> (\<forall>y<pb_height img. \<forall>x<pb_width img. \<forall>k<3. pb_at img y x k = 0)"

definition example_distribution :: distribution_report where
  "example_distribution =
     \<lparr> black = 80, very_dark = 10, dark = 2, mid = 3, bright = 3, hot = 2,
       mean = 4, median = 1, p95 = 30, p99 = 60, max_brightness = 90 \<rparr>"

definition example_scan :: scan_result where
  "example_scan =
     \<lparr> floor_brightness = 1, line_brightness = 6, contrast_ratio = 6, peak_count = 4 \<rparr>"

definition example_grid :: "(string \<times> scan_result) list" where
  "example_grid = map (\<lambda>name. (name, example_scan)) (map fst h_scans @ map fst v_scans)"

definition example_colors :: color_report where
  "example_colors =
     \<lparr> cyan_teal = 0.5, warm_red_orange = 2, purple_magenta = 0, green = 0, white_hot = 1 \<rparr>"

definition example_regions :: region_report where
  "example_regions =
     \<lparr> center_mean = Some 5, center_p95 = 20, bottom_mean = Some 4, bottom_p95 = 18,
       top_mean = Some 2, top_p95 = 9, left_mean = Some 1, right_mean = Some 1 \<rparr>"

definition example_reflections :: reflection_report where
  "example_reflections =
     \<lparr> floor_brightness_std = 0.4, floor_max_brightness = 12, floor_has_variation = ''NO'' \<rparr>"

section \<open>The analysis of a black image\<close>

text \<open>A luminance map that is 0 on every pixel, and what the analysers return on it.\<close>

definition zero_map :: "luminance_map \<Rightarrow> bool" where
  "zero_map brt \<longleftrightarrow> (\<forall>y<lm_height brt. \<forall>x<lm_width brt. lm_at brt y x = 0)"

definition black_scan :: scan_result where
  "black_scan =
     \<lparr> floor_brightness = 0.1, line_brightness = 0, contrast_ratio = 0, peak_count = 0 \<rparr>"

definition black_grid :: "(string \<times> scan_result) list" where
  "black_grid = map (\<lambda>(name, f). (name, black_scan)) (h_scans @ v_scans)"

definition black_distribution :: distribution_report where
  "black_distribution =
     \<lparr> black = 100, very_dark = 0, dark = 0, mid = 0, bright = 0, hot = 0,
       mean = 0, median = 0, p95 = 0, p99 = 0, max_brightness = 0 \<rparr>"

definition black_reflections :: reflection_report where
  "black_reflections =
     \<lparr> floor_brightness_std = 0, floor_max_brightness = 0, floor_has_variation = ''NO'' \<rparr>"

definition black_colors :: color_report where
  "black_colors =
     \<lparr> cyan_teal = 0, warm_red_orange = 0, purple_magenta = 0, green = 0, white_hot = 0 \<rparr>"

text \<open>The contrast ratios of the scan lines in the result of \<open>main\<close>.\<close>

definition grid_contrasts :: "error + report \<Rightarrow> error + real list" where
  "grid_contrasts res = map_sum id (\<lambda>r. map (\<lambda>(name, d). contrast_ratio d) (r_grid r)) res"

section \<open>Test sequences\<close>

text \<open>The alternating sequence \<open>lo, hi, lo, hi, ...\<close> of length \<open>n\<close>.\<close>

definition alternating :: "nat \<Rightarrow> real \<Rightarrow> real \<Rightarrow> real list" where
  "alternating n lo hi = map (\<lambda>i. if even i then lo else hi) [0..<n]"

section \<open>Library facts\<close>

lemma and_then_Inr [simp]: "and_then (Inr x) f = f x"
  by (simp add: and_then_def)

lemma and_then_Inl [simp]: "and_then (Inl e) f = Inl e"
  by (simp add: and_then_def)

lemma length_slice2:
  "length (slice2 brt r0 r1 c0 c1)
     = (min r1 (lm_height brt) - r0) * (min c1 (lm_width brt) - c0)"
  by (simp add: slice2_def length_concat comp_def sum_list_triv)

lemma length_flat: "length (flat brt) = lm_height brt * lm_width brt"
  by (simp add: flat_def length_slice2)

lemma in_flat:
  "v \<in> set (flat brt) \<longleftrightarrow> (\<exists>y<lm_height brt. \<exists>x<lm_width brt. v = lm_at brt y x)"
proof -
  have "set (flat brt) = (\<Union>y\<in>{0..<lm_height brt}. lm_at brt y ` {0..<lm_width brt})"
    by (simp add: flat_def slice2_def)
  also have "\<dots> = {v. \<exists>y<lm_height brt. \<exists>x<lm_width brt. v = lm_at brt y x}"
    by (force simp: image_iff)
  finally show ?thesis by simp
qed

lemma np_percentile_nonempty: "a \<noteq> [] \<Longrightarrow> \<exists>v. np_percentile a q = Inr v"
  by (simp add: np_percentile_def Let_def)

lemma np_max_nonempty: "a \<noteq> [] \<Longrightarrow> np_max a = Inr (Max (set a))"
  by (simp add: np_max_def)

lemma count_where_Nil: "count_where P [] = 0"
  by (simp add: count_where_def)

lemma count_where_Cons: "count_where P (x # xs) = (if P x then 1 else 0) + count_where P xs"
  by (simp add: count_where_def)

section \<open>The brightness bands\<close>

lemma one_band:
  "count_where (\<lambda>band. band v) [is_black, is_vdark, is_dark, is_mid, is_bright, is_hot] = 1"
  by (simp add: count_where_def is_black_def is_vdark_def is_dark_def is_mid_def
      is_bright_def is_hot_def)

lemma band_counts:
  "count_where is_black v + count_where is_vdark v + count_where is_dark v
     + count_where is_mid v + count_where is_bright v + count_where is_hot v = length v"
proof (induction v)
  case Nil
  show ?case by (simp add: count_where_Nil)
next
  case (Cons x xs)
  have one: "(if is_black x then 1 else 0) + (if is_vdark x then 1 else 0)
      + (if is_dark x then 1 else 0) + (if is_mid x then 1 else 0)
      + (if is_bright x then 1 else 0) + (if is_hot x then 1 else (0::nat)) = 1"
    by (simp add: is_black_def is_vdark_def is_dark_def is_mid_def is_bright_def is_hot_def)
  show ?case unfolding count_where_Cons using Cons one by simp
qed

lemma band_intervals:
  assumes "0 \<le> v" and "v \<le> 1"
  shows "(is_black v \<longleftrightarrow> v \<in> {0..<0.02}) \<and> (is_vdark v \<longleftrightarrow> v \<in> {0.02..<0.06})
       \<and> (is_dark v \<longleftrightarrow> v \<in> {0.06..<0.15}) \<and> (is_mid v \<longleftrightarrow> v \<in> {0.15..<0.40})
       \<and> (is_bright v \<longleftrightarrow> v \<in> {0.40..<0.70}) \<and> (is_hot v \<longleftrightarrow> v \<in> {0.70..1})"
  using assms
  by (simp add: is_black_def is_vdark_def is_dark_def is_mid_def is_bright_def is_hot_def)

lemma distribution_nonempty:
  assumes "flat brt \<noteq> []"
  shows "\<exists>q95 q99.
    analyze_brightness_distribution brt =
      Inr \<lparr> black = real (count_where is_black (flat brt)) / real (length (flat brt)) * 100,
            very_dark = real (count_where is_vdark (flat brt)) / real (length (flat brt)) * 100,
            dark = real (count_where is_dark (flat brt)) / real (length (flat brt)) * 100,
            mid = real (count_where is_mid (flat brt)) / real (length (flat brt)) * 100,
            bright = real (count_where is_bright (flat brt)) / real (length (flat brt)) * 100,
            hot = real (count_where is_hot (flat brt)) / real (length (flat brt)) * 100,
            mean = mean_of (flat brt) * 100,
            median = np_median (flat brt) * 100,
            p95 = q95 * 100,
            p99 = q99 * 100,
            max_brightness = Max (set (flat brt)) * 100 \<rparr>"
proof -
  obtain q95 where q95: "np_percentile (flat brt) 95 = Inr q95"
    using np_percentile_nonempty [OF assms] by blast
  obtain q99 where q99: "np_percentile (flat brt) 99 = Inr q99"
    using np_percentile_nonempty [OF assms] by blast
  show ?thesis
    by (simp add: analyze_brightness_distribution_def Let_def q95 q99 np_max_nonempty [OF assms])
qed

lemma band_sum_100:
  assumes "v \<noteq> []"
  shows "real (count_where is_black v) / real (length v) * 100
       + real (count_where is_vdark v) / real (length v) * 100
       + real (count_where is_dark v) / real (length v) * 100
       + real (count_where is_mid v) / real (length v) * 100
       + real (count_where is_bright v) / real (length v) * 100
       + real (count_where is_hot v) / real (length v) * 100 = 100"
proof -
  have len: "real (length v) \<noteq> 0" using assms by simp
  have "real (count_where is_black v) + real (count_where is_vdark v)
      + real (count_where is_dark v) + real (count_where is_mid v)
      + real (count_where is_bright v) + real (count_where is_hot v) = real (length v)"
    using band_counts [of v] by (metis of_nat_add)
  then show ?thesis using len by (simp add: field_simps)
qed

text \<open>
  C1. On a luminance map with at least one pixel and all values in \<open>[0,1]\<close>,
  \<open>analyze_brightness_distribution\<close> returns a report; each of its six band percentages
  is the number of pixels in the band over the number of pixels, times 100; every pixel
  satisfies exactly one of the six band conditions, which on \<open>[0,1]\<close> are the intervals
  \<open>[0,0.02)\<close>, \<open>[0.02,0.06)\<close>, \<open>[0.06,0.15)\<close>, \<open>[0.15,0.40)\<close>, \<open>[0.40,0.70)\<close>,
  \<open>[0.70,1]\<close>; and the six percentages sum to 100 (in exact arithmetic).
\<close>

theorem analyze_brightness_distribution_bands:
  assumes "0 < lm_height brt" and "0 < lm_width brt"
    and "\<forall>y<lm_height brt. \<forall>x<lm_width brt. 0 \<le> lm_at brt y x \<and> lm_at brt y x \<le> 1"
  shows "\<exists>d. analyze_brightness_distribution brt = Inr d
    \<and> black d = real (count_where is_black (flat brt)) / real (length (flat brt)) * 100
    \<and> very_dark d = real (count_where is_vdark (flat brt)) / real (length (flat brt)) * 100
    \<and> dark d = real (count_where is_dark (flat brt)) / real (length (flat brt)) * 100
    \<and> mid d = real (count_where is_mid (flat brt)) / real (length (flat brt)) * 100
    \<and> bright d = real (count_where is_bright (flat brt)) / real (length (flat brt)) * 100
    \<and> hot d = real (count_where is_hot (flat brt)) / real (length (flat brt)) * 100
    \<and> black d + very_dark d + dark d + mid d + bright d + hot d = 100
    \<and> (\<forall>v \<in> set (flat brt).
          count_where (\<lambda>band. band v) [is_black, is_vdark, is_dark, is_mid, is_bright, is_hot] = 1
        \<and> (is_black v \<longleftrightarrow> v \<in> {0..<0.02}) \<and> (is_vdark v \<longleftrightarrow> v \<in> {0.02..<0.06})
        \<and> (is_dark v \<longleftrightarrow> v \<in> {0.06..<0.15}) \<and> (is_mid v \<longleftrightarrow> v \<in> {0.15..<0.40})
        \<and> (is_bright v \<longleftrightarrow> v \<in> {0.40..<0.70}) \<and> (is_hot v \<longleftrightarrow> v \<in> {0.70..1}))"
proof -
  have ne: "flat brt \<noteq> []"
    using assms(1,2) length_flat [of brt] by auto
  have range: "0 \<le> v \<and> v \<le> 1" if "v \<in> set (flat brt)" for v
    using that assms(3) by (auto simp: in_flat)
  have pixels: "\<forall>v \<in> set (flat brt).
          count_where (\<lambda>band. band v) [is_black, is_vdark, is_dark, is_mid, is_bright, is_hot] = 1
        \<and> (is_black v \<longleftrightarrow> v \<in> {0..<0.02}) \<and> (is_vdark v \<longleftrightarrow> v \<in> {0.02..<0.06})
        \<and> (is_dark v \<longleftrightarrow> v \<in> {0.06..<0.15}) \<and> (is_mid v \<longleftrightarrow> v \<in> {0.15..<0.40})
        \<and> (is_bright v \<longleftrightarrow> v \<in> {0.40..<0.70}) \<and> (is_hot v \<longleftrightarrow> v \<in> {0.70..1})"
    using range band_intervals one_band by blast
  obtain q95 q99 where d: "analyze_brightness_distribution brt =
      Inr \<lparr> black = real (count_where is_black (flat brt)) / real (length (flat brt)) * 100,
            very_dark = real (count_where is_vdark (flat brt)) / real (length (flat brt)) * 100,
            dark = real (count_where is_dark (flat brt)) / real (length (flat brt)) * 100,
            mid = real (count_where is_mid (flat brt)) / real (length (flat brt)) * 100,
            bright = real (count_where is_bright (flat brt)) / real (length (flat brt)) * 100,
            hot = real (count_where is_hot (flat brt)) / real (length (flat brt)) * 100,
            mean = mean_of (flat brt) * 100,
            median = np_median (flat brt) * 100,
            p95 = q95 * 100,
            p99 = q99 * 100,
            max_brightness = Max (set (flat brt)) * 100 \<rparr>"
    using distribution_nonempty [OF ne] by blast
  show ?thesis
    unfolding d using band_sum_100 [OF ne] pixels by simp
qed

theorem analyze_brightness_distribution_bands_witness:
  "\<exists>d. analyze_brightness_distribution
          \<lparr> lm_height = 1, lm_width = 2, lm_at = (\<lambda>y x. if x = 0 then 0.01 else 0.5) \<rparr> = Inr d
     \<and> black d + very_dark d + dark d + mid d + bright d + hot d = 100"
proof -
  let ?b = "\<lparr> lm_height = 1, lm_width = 2, lm_at = (\<lambda>y x. if x = 0 then 0.01 else 0.5 :: real) \<rparr>"
  have h: "0 < lm_height ?b" and w: "0 < lm_width ?b" by simp_all
  have r: "\<forall>y<lm_height ?b. \<forall>x<lm_width ?b. 0 \<le> lm_at ?b y x \<and> lm_at ?b y x \<le> 1" by simp
  from analyze_brightness_distribution_bands [OF h w r] show ?thesis by blast
qed

section \<open>Peak counting\<close>

lemma length_np_diff: "length (np_diff xs) = length xs - 1"
  by (induction xs rule: np_diff.induct) auto

lemma nth_np_diff: "Suc i < length xs \<Longrightarrow> np_diff xs ! i = xs ! Suc i - xs ! i"
proof (induction xs arbitrary: i rule: np_diff.induct)
  case (1 x y zs)
  then show ?case by (cases i) auto
qed auto

lemma count_peaks_card:
  "count_peaks arr t = int (card {i. Suc i < length arr \<and> arr ! i \<le> t \<and> t < arr ! Suc i})"
proof -
  let ?b = "map (\<lambda>b. if b then 1 else (0::int)) (map (\<lambda>v. v > t) arr)"
  have "{i. i < length (np_diff ?b) \<and> np_diff ?b ! i = 1}
      = {i. Suc i < length arr \<and> arr ! i \<le> t \<and> t < arr ! Suc i}"
    by (auto simp: length_np_diff nth_np_diff split: if_splits)
  then show ?thesis
    by (simp add: count_peaks_def count_where_def Let_def length_filter_conv_card)
qed

lemma count_peaks_constant: "count_peaks (replicate n c) t = 0"
proof -
  have "{i. Suc i < length (replicate n c) \<and> replicate n c ! i \<le> t
            \<and> t < replicate n c ! Suc i} = {}"
    by auto
  then show ?thesis by (simp only: count_peaks_card card.empty of_nat_0)
qed

lemma card_even_below: "card {i. Suc i < n \<and> even i} = n div 2"
proof (induction n)
  case 0
  show ?case by simp
next
  case (Suc n)
  have fin: "finite {i. Suc i < n \<and> even i}"
    by (rule finite_subset [of _ "{..<n}"]) auto
  show ?case
  proof (cases "odd n")
    case True
    then have eq: "{i. Suc i < Suc n \<and> even i} = insert (n - 1) {i. Suc i < n \<and> even i}"
      by (auto elim: oddE simp: less_Suc_eq)
    have notin: "n - 1 \<notin> {i. Suc i < n \<and> even i}" by auto
    have "card {i. Suc i < Suc n \<and> even i} = Suc (n div 2)"
      unfolding eq card_insert_disjoint [OF fin notin] Suc.IH ..
    with True show ?thesis by simp
  next
    case False
    then have "{i. Suc i < Suc n \<and> even i} = {i. Suc i < n \<and> even i}"
      by (auto simp: less_Suc_eq)
    with Suc False show ?thesis by simp
  qed
qed

lemma count_peaks_alternating:
  assumes "lo \<le> t" and "t < hi"
  shows "count_peaks (alternating n lo hi) t = int (n div 2)"
proof -
  have "{i. Suc i < length (alternating n lo hi) \<and> alternating n lo hi ! i \<le> t
            \<and> t < alternating n lo hi ! Suc i}
      = {i. Suc i < n \<and> even i}"
    using assms by (auto simp: alternating_def split: if_splits)
  then show ?thesis by (simp add: count_peaks_card card_even_below)
qed

lemma card_odd_below: "card {i. Suc i < n \<and> odd i} = (n - 1) div 2"
proof (induction n)
  case 0
  show ?case by simp
next
  case (Suc n)
  have fin: "finite {i. Suc i < n \<and> odd i}"
    by (rule finite_subset [of _ "{..<n}"]) auto
  show ?case
  proof (cases "even n \<and> 0 < n")
    case True
    then have eq: "{i. Suc i < Suc n \<and> odd i} = insert (n - 1) {i. Suc i < n \<and> odd i}"
      by (auto simp: less_Suc_eq)
    have notin: "n - 1 \<notin> {i. Suc i < n \<and> odd i}" by auto
    have "card {i. Suc i < Suc n \<and> odd i} = Suc ((n - 1) div 2)"
      unfolding eq card_insert_disjoint [OF fin notin] Suc.IH ..
    with True show ?thesis by (auto elim!: evenE)
  next
    case False
    then have "{i. Suc i < Suc n \<and> odd i} = {i. Suc i < n \<and> odd i}"
      by (auto simp: less_Suc_eq)
    with Suc False show ?thesis by (auto elim!: oddE)
  qed
qed

text \<open>When the sequence starts with the high value, the first element is no rising edge.\<close>

lemma count_peaks_alternating_high_first:
  assumes "lo \<le> t" and "t < hi"
  shows "count_peaks (alternating n hi lo) t = int ((n - 1) div 2)"
proof -
  have "{i. Suc i < length (alternating n hi lo) \<and> alternating n hi lo ! i \<le> t
            \<and> t < alternating n hi lo ! Suc i}
      = {i. Suc i < n \<and> odd i}"
    using assms by (auto simp: alternating_def split: if_splits)
  then show ?thesis by (simp add: count_peaks_card card_odd_below)
qed

text \<open>
  C3. \<open>count_peaks arr t\<close> is the number of positions \<open>i\<close> with \<open>arr[i] \<le> t\<close> and
  \<open>arr[i+1] > t\<close>. On a constant sequence it is 0 for every threshold. On the alternating
  sequence \<open>lo, hi, lo, hi, ...\<close> of length \<open>n\<close>, with \<open>lo \<le> t < hi\<close>, it is \<open>n div 2\<close>:
  half of \<open>n\<close>, rounded down.
\<close>

theorem count_peaks_rising_edges:
  "count_peaks arr t = int (card {i. Suc i < length arr \<and> arr ! i \<le> t \<and> t < arr ! Suc i})
   \<and> count_peaks (replicate k c) t = 0
   \<and> (lo \<le> t \<and> t < hi \<longrightarrow> count_peaks (alternating n lo hi) t = int (n div 2))"
  using count_peaks_card count_peaks_constant count_peaks_alternating by blast

theorem count_peaks_rising_edges_witness:
  "(0.05::real) \<le> 0.1 \<and> (0.1::real) < 0.2
   \<and> count_peaks (alternating 5 0.05 0.2) 0.1 = 2
   \<and> alternating 5 0.05 0.2 = [0.05, 0.2, 0.05, 0.2, 0.05]"
proof -
  have a: "alternating 5 0.05 0.2 = [0.05, 0.2, 0.05, 0.2, 0.05]"
    by (simp add: alternating_def upt_rec)
  show ?thesis
    using count_peaks_rising_edges
      [where arr = "[]" and k = 0 and c = 0 and lo = "0.05" and t = "0.1" and hi = "0.2" and n = 5] a
    by simp
qed

section \<open>The report\<close>

lemma length_example_grid: "length example_grid = 8"
  by (simp add: example_grid_def h_scans_def v_scans_def)

lemma example_grid_contrasts:
  "map (\<lambda>(name, d). contrast_ratio d) example_grid = [6, 6, 6, 6, 6, 6, 6, 6]"
  by (simp add: example_grid_def h_scans_def v_scans_def example_scan_def)

lemma example_grid_peaks:
  "map (\<lambda>(name, d). real_of_int (peak_count d)) example_grid = [4, 4, 4, 4, 4, 4, 4, 4]"
  by (simp add: example_grid_def h_scans_def v_scans_def example_scan_def)

text \<open>
  C5. For a grid of eight scan results, the two averages of the report are the sums of
  the eight contrast ratios and of the eight peak counts over 8, and the verdict is decided
  by them alone, first match first: EXCELLENT iff \<open>avg_contrast > 5.0\<close> and
  \<open>avg_peaks > 3\<close>; GOOD iff not that, and \<open>avg_contrast > 3.0\<close> and \<open>avg_peaks > 2\<close>;
  WEAK iff neither, and \<open>avg_contrast > 1.5\<close>; INVISIBLE iff none of the three. The
  other arguments of \<open>format_report\<close> do not change it.
\<close>

theorem grid_verdict_first_match:
  fixes grid :: "(string \<times> scan_result) list"
    and distribution :: distribution_report and colors :: color_report
    and regions :: region_report and reflections :: reflection_report and dims :: "nat \<times> nat"
  assumes "length grid = 8"
  defines "r \<equiv> format_report distribution grid colors regions reflections dims"
  shows "avg_contrast r = sum_list (map (\<lambda>(name, d). contrast_ratio d) grid) / 8
    \<and> avg_peaks r = sum_list (map (\<lambda>(name, d). real_of_int (peak_count d)) grid) / 8
    \<and> (grid_verdict r = EXCELLENT \<longleftrightarrow> avg_contrast r > 5.0 \<and> avg_peaks r > 3)
    \<and> (grid_verdict r = GOOD \<longleftrightarrow>
          \<not> (avg_contrast r > 5.0 \<and> avg_peaks r > 3) \<and> avg_contrast r > 3.0 \<and> avg_peaks r > 2)
    \<and> (grid_verdict r = WEAK \<longleftrightarrow>
          \<not> (avg_contrast r > 5.0 \<and> avg_peaks r > 3) \<and> \<not> (avg_contrast r > 3.0 \<and> avg_peaks r > 2)
          \<and> avg_contrast r > 1.5)
    \<and> (grid_verdict r = INVISIBLE \<longleftrightarrow>
          \<not> (avg_contrast r > 5.0 \<and> avg_peaks r > 3) \<and> \<not> (avg_contrast r > 3.0 \<and> avg_peaks r > 2)
          \<and> \<not> avg_contrast r > 1.5)
    \<and> grid_verdict r = grid_verdict (format_report distribution' grid colors' regions' reflections' dims')"
  using assms(1) unfolding r_def
  by (simp add: format_report_def Let_def mean_of_def)

theorem grid_verdict_first_match_witness:
  "length example_grid = 8
   \<and> grid_verdict (format_report example_distribution example_grid example_colors
        example_regions example_reflections (1920, 1080)) = EXCELLENT"
  using grid_verdict_first_match [OF length_example_grid, of example_distribution example_colors
        example_regions example_reflections "(1920, 1080)"]
  by (simp add: length_example_grid example_grid_contrasts example_grid_peaks)

text \<open>
  C7. For a grid of eight scan results, each of the six issues is in the issue list iff
  its own condition holds: TOO DARK iff the black band is above 70; NO GRID FLOOR iff the
  black band is above 50 and the dark band below 5; LOW CONTRAST iff the average contrast
  is below 2.0; NO CYAN iff the cyan percentage is below 1.0; NO SSR iff the reflection
  classification is NO; BLOOM OVERLOAD iff the hot band is above 15. The list holds the
  issues that fire, once each, in that order; the assessment has one line per issue,
  and the line "no major issues" iff no condition holds.
\<close>

theorem issue_rules:
  fixes grid :: "(string \<times> scan_result) list"
    and distribution :: distribution_report and colors :: color_report
    and regions :: region_report and reflections :: reflection_report and dims :: "nat \<times> nat"
  assumes "length grid = 8"
  defines "r \<equiv> format_report distribution grid colors regions reflections dims"
  shows "avg_contrast r = sum_list (map (\<lambda>(name, d). contrast_ratio d) grid) / 8
    \<and> (TOO_DARK \<in> set (issues r) \<longleftrightarrow> black distribution > 70)
    \<and> (NO_GRID_FLOOR \<in> set (issues r) \<longleftrightarrow> black distribution > 50 \<and> dark distribution < 5)
    \<and> (LOW_CONTRAST \<in> set (issues r) \<longleftrightarrow> avg_contrast r < 2.0)
    \<and> (NO_CYAN \<in> set (issues r) \<longleftrightarrow> cyan_teal colors < 1.0)
    \<and> (NO_SSR \<in> set (issues r) \<longleftrightarrow> floor_has_variation reflections = ''NO'')
    \<and> (BLOOM_OVERLOAD \<in> set (issues r) \<longleftrightarrow> hot distribution > 15)
    \<and> issues r = filter (\<lambda>i. i \<in> set (issues r))
          [TOO_DARK, NO_GRID_FLOOR, LOW_CONTRAST, NO_CYAN, NO_SSR, BLOOM_OVERLOAD]
    \<and> overall r = (if issues r = [] then [No_major_issues] else map Issue (issues r))
    \<and> (No_major_issues \<in> set (overall r) \<longleftrightarrow>
         \<not> black distribution > 70 \<and> \<not> (black distribution > 50 \<and> dark distribution < 5)
         \<and> \<not> avg_contrast r < 2.0 \<and> \<not> cyan_teal colors < 1.0
         \<and> floor_has_variation reflections \<noteq> ''NO'' \<and> \<not> hot distribution > 15)"
  using assms(1) unfolding r_def
  by (auto simp: format_report_def Let_def mean_of_def)

theorem issue_rules_witness:
  "length example_grid = 8
   \<and> issues (format_report example_distribution example_grid example_colors
        example_regions example_reflections (1920, 1080))
       = [TOO_DARK, NO_GRID_FLOOR, NO_CYAN, NO_SSR]"
proof -
  let ?r = "format_report example_distribution example_grid example_colors
        example_regions example_reflections (1920, 1080)"
  note rules = issue_rules [OF length_example_grid, where distribution = example_distribution
        and colors = example_colors and regions = example_regions
        and reflections = example_reflections and dims = "(1920, 1080)"]
  have avg: "avg_contrast ?r = 6"
    using rules by (simp add: example_grid_contrasts)
  have fired: "TOO_DARK \<in> set (issues ?r)" "NO_GRID_FLOOR \<in> set (issues ?r)"
    "LOW_CONTRAST \<notin> set (issues ?r)" "NO_CYAN \<in> set (issues ?r)"
    "NO_SSR \<in> set (issues ?r)" "BLOOM_OVERLOAD \<notin> set (issues ?r)"
    using rules avg
    by (simp_all add: example_distribution_def example_colors_def example_reflections_def)
  have "issues ?r = filter (\<lambda>i. i \<in> set (issues ?r))
          [TOO_DARK, NO_GRID_FLOOR, LOW_CONTRAST, NO_CYAN, NO_SSR, BLOOM_OVERLOAD]"
    using rules by blast
  also have "\<dots> = [TOO_DARK, NO_GRID_FLOOR, NO_CYAN, NO_SSR]"
    using fired by simp
  finally show ?thesis using length_example_grid by simp
qed


section \<open>The divisor of the contrast ratio\<close>

lemma clamp_floor_max: "clamp_floor p = max p 0.001"
  by (simp add: clamp_floor_def max_def)

lemma pct_ex: "np_percentile [0, 0.2, 0.0005, 0.1, 0.3] 20 = Inr 0.0004"
  by (simp add: np_percentile_def Let_def)

lemma pct_ex90: "np_percentile [0, 0.2, 0.0005, 0.1, 0.3] 90 = Inr 0.26"
  by (simp add: np_percentile_def Let_def)

text \<open>
  C4. On every non-empty scan line, \<open>scan_line\<close> returns a result whose contrast ratio
  is the 90th percentile over the clamped floor level; the clamped floor level is the
  larger of the 20th percentile and 0.001, it is 0.001 whenever the percentile is below
  0.001, so it is at least 0.001 and never 0: the ratio is never a division by zero.
\<close>

theorem scan_line_divisor:
  assumes "seq \<noteq> []"
  shows "\<exists>p20 p90 r. np_percentile seq 20 = Inr p20 \<and> np_percentile seq 90 = Inr p90
    \<and> scan_line seq = Inr r
    \<and> contrast_ratio r = p90 / clamp_floor p20
    \<and> clamp_floor p20 = max p20 0.001
    \<and> (p20 < 0.001 \<longrightarrow> clamp_floor p20 = 0.001)
    \<and> clamp_floor p20 \<ge> 0.001
    \<and> clamp_floor p20 \<noteq> 0
    \<and> floor_brightness r = clamp_floor p20 * 100"
proof -
  obtain p20 where p20: "np_percentile seq 20 = Inr p20"
    using np_percentile_nonempty [OF assms] by blast
  obtain p90 where p90: "np_percentile seq 90 = Inr p90"
    using np_percentile_nonempty [OF assms] by blast
  have "clamp_floor p20 \<ge> 0.001" by (simp add: clamp_floor_def)
  then show ?thesis
    by (simp add: scan_line_def p20 p90 Let_def clamp_floor_max)
qed

theorem scan_line_divisor_witness:
  "[0, 0.2, 0.0005, 0.1, 0.3] \<noteq> ([] :: real list)
   \<and> (\<exists>r. scan_line [0, 0.2, 0.0005, 0.1, 0.3] = Inr r \<and> contrast_ratio r = 260
          \<and> floor_brightness r = 0.1)"
proof -
  have ne: "[0, 0.2, 0.0005, 0.1, 0.3] \<noteq> ([] :: real list)" by simp
  from scan_line_divisor [OF ne]
  obtain p20 p90 r where
    p: "np_percentile [0, 0.2, 0.0005, 0.1, 0.3] 20 = Inr p20"
      "np_percentile [0, 0.2, 0.0005, 0.1, 0.3] 90 = Inr p90"
    and r: "scan_line [0, 0.2, 0.0005, 0.1, 0.3] = Inr r"
      "contrast_ratio r = p90 / clamp_floor p20"
      "floor_brightness r = clamp_floor p20 * 100"
    by blast
  have "p20 = 0.0004" "p90 = 0.26"
    using p unfolding pct_ex pct_ex90 by simp_all
  with r show ?thesis by (simp add: clamp_floor_def)
qed


section \<open>The scan positions\<close>

lemma py_int_frac:
  assumes "0 \<le> f" and "f < 1" and "1 \<le> n"
  shows "0 \<le> py_int (f * real n) \<and> py_int (f * real n) < int n"
proof -
  have nn: "0 \<le> f * real n" using assms(1) by simp
  have "f * real n < real n" using assms(2,3) by simp
  then have "\<lfloor>f * real n\<rfloor> < int n" by (simp add: floor_less_iff)
  with nn show ?thesis by (simp add: py_int_def)
qed

lemma np_index_ok: "0 \<le> i \<Longrightarrow> i < int n \<Longrightarrow> np_index n i = Inr (nat i)"
  by (simp add: np_index_def)

lemma get_row_ok:
  "0 \<le> i \<Longrightarrow> i < int (lm_height brt) \<Longrightarrow>
   get_row brt i = Inr (map (lm_at brt (nat i)) [0..<lm_width brt])"
  by (simp add: get_row_def np_index_ok)

lemma get_col_ok:
  "0 \<le> i \<Longrightarrow> i < int (lm_width brt) \<Longrightarrow>
   get_col brt i = Inr (map (\<lambda>y. lm_at brt y (nat i)) [0..<lm_height brt])"
  by (simp add: get_col_def np_index_ok)

lemma scan_line_Inr: "seq \<noteq> [] \<Longrightarrow> \<exists>r. scan_line seq = Inr r"
proof -
  assume ne: "seq \<noteq> []"
  obtain p20 where p20: "np_percentile seq 20 = Inr p20"
    using np_percentile_nonempty [OF ne] by blast
  obtain p90 where p90: "np_percentile seq 90 = Inr p90"
    using np_percentile_nonempty [OF ne] by blast
  show ?thesis by (simp add: scan_line_def p20 p90 Let_def)
qed

lemma scan_rows_ok:
  assumes "1 \<le> lm_height brt" and "1 \<le> lm_width brt"
    and "\<forall>(name, f) \<in> set fs. 0 \<le> f \<and> f < 1"
  shows "\<exists>rs. scan_rows brt fs = Inr rs \<and> map fst rs = map fst fs"
  using assms(3)
proof (induction fs)
  case Nil
  show ?case by simp
next
  case (Cons a fs)
  obtain name f where a: "a = (name, f)" by (cases a)
  have f: "0 \<le> f" "f < 1" using Cons.prems a by auto
  note idx = py_int_frac [OF f assms(1)]
  have row: "get_row brt (py_int (f * real (lm_height brt)))
      = Inr (map (lm_at brt (nat (py_int (f * real (lm_height brt))))) [0..<lm_width brt])"
    using idx by (simp add: get_row_ok)
  have "map (lm_at brt (nat (py_int (f * real (lm_height brt))))) [0..<lm_width brt] \<noteq> []"
    using assms(2) by simp
  then obtain r where r: "scan_line (map (lm_at brt (nat (py_int (f * real (lm_height brt))))) [0..<lm_width brt]) = Inr r"
    using scan_line_Inr by blast
  obtain rs where rs: "scan_rows brt fs = Inr rs" "map fst rs = map fst fs"
    using Cons by auto
  show ?case by (simp add: a row r rs)
qed

lemma scan_cols_ok:
  assumes "1 \<le> lm_height brt" and "1 \<le> lm_width brt"
    and "\<forall>(name, f) \<in> set fs. 0 \<le> f \<and> f < 1"
  shows "\<exists>rs. scan_cols brt fs = Inr rs \<and> map fst rs = map fst fs"
  using assms(3)
proof (induction fs)
  case Nil
  show ?case by simp
next
  case (Cons a fs)
  obtain name f where a: "a = (name, f)" by (cases a)
  have f: "0 \<le> f" "f < 1" using Cons.prems a by auto
  note idx = py_int_frac [OF f assms(2)]
  have col: "get_col brt (py_int (f * real (lm_width brt)))
      = Inr (map (\<lambda>y. lm_at brt y (nat (py_int (f * real (lm_width brt))))) [0..<lm_height brt])"
    using idx by (simp add: get_col_ok)
  have "map (\<lambda>y. lm_at brt y (nat (py_int (f * real (lm_width brt))))) [0..<lm_height brt] \<noteq> []"
    using assms(1) by simp
  then obtain r where r: "scan_line (map (\<lambda>y. lm_at brt y (nat (py_int (f * real (lm_width brt))))) [0..<lm_height brt]) = Inr r"
    using scan_line_Inr by blast
  obtain rs where rs: "scan_cols brt fs = Inr rs" "map fst rs = map fst fs"
    using Cons by auto
  show ?case by (simp add: a col r rs)
qed

lemma h_scans_fracs: "\<forall>(name, f) \<in> set h_scans. 0 \<le> f \<and> f < 1"
  by (simp add: h_scans_def)

lemma v_scans_fracs: "\<forall>(name, f) \<in> set v_scans. 0 \<le> f \<and> f < 1"
  by (simp add: v_scans_def)

lemma analyze_grid_lines_ok:
  assumes "1 \<le> lm_height brt" and "1 \<le> lm_width brt"
  shows "\<exists>grid. analyze_grid_lines brt = Inr grid
           \<and> map fst grid = map fst h_scans @ map fst v_scans"
proof -
  obtain hs where hs: "scan_rows brt h_scans = Inr hs" "map fst hs = map fst h_scans"
    using scan_rows_ok [OF assms h_scans_fracs] by blast
  obtain vs where vs: "scan_cols brt v_scans = Inr vs" "map fst vs = map fst v_scans"
    using scan_cols_ok [OF assms v_scans_fracs] by blast
  show ?thesis by (simp add: analyze_grid_lines_def hs vs)
qed

text \<open>
  C10. On a luminance map with at least one row and one column, every scan index
  \<open>int(f * h)\<close> for \<open>f\<close> in 0.40, 0.45, 0.50, 0.55, 0.60 and \<open>int(f * w)\<close> for \<open>f\<close> in
  0.40, 0.50, 0.60 is at least 0 and below its dimension, the row or column read at it is
  returned without an IndexError, and \<open>analyze_grid_lines\<close> returns its eight results.
\<close>

theorem scan_indices_in_bounds:
  assumes "1 \<le> lm_height brt" and "1 \<le> lm_width brt"
  shows "map snd h_scans = [0.40, 0.45, 0.50, 0.55, 0.60]
    \<and> map snd v_scans = [0.40, 0.50, 0.60]
    \<and> (\<forall>f \<in> set (map snd h_scans).
          0 \<le> py_int (f * real (lm_height brt))
        \<and> py_int (f * real (lm_height brt)) < int (lm_height brt)
        \<and> get_row brt (py_int (f * real (lm_height brt)))
            = Inr (map (lm_at brt (nat (py_int (f * real (lm_height brt))))) [0..<lm_width brt]))
    \<and> (\<forall>f \<in> set (map snd v_scans).
          0 \<le> py_int (f * real (lm_width brt))
        \<and> py_int (f * real (lm_width brt)) < int (lm_width brt)
        \<and> get_col brt (py_int (f * real (lm_width brt)))
            = Inr (map (\<lambda>y. lm_at brt y (nat (py_int (f * real (lm_width brt))))) [0..<lm_height brt]))
    \<and> (\<exists>grid. analyze_grid_lines brt = Inr grid
           \<and> map fst grid = map fst h_scans @ map fst v_scans)"
proof -
  have rows: "0 \<le> py_int (f * real (lm_height brt))
        \<and> py_int (f * real (lm_height brt)) < int (lm_height brt)
        \<and> get_row brt (py_int (f * real (lm_height brt)))
            = Inr (map (lm_at brt (nat (py_int (f * real (lm_height brt))))) [0..<lm_width brt])"
    if "f \<in> set (map snd h_scans)" for f
  proof -
    have "0 \<le> f" "f < 1" using that h_scans_fracs by auto
    from py_int_frac [OF this assms(1)] show ?thesis by (simp add: get_row_ok)
  qed
  have cols: "0 \<le> py_int (f * real (lm_width brt))
        \<and> py_int (f * real (lm_width brt)) < int (lm_width brt)
        \<and> get_col brt (py_int (f * real (lm_width brt)))
            = Inr (map (\<lambda>y. lm_at brt y (nat (py_int (f * real (lm_width brt))))) [0..<lm_height brt])"
    if "f \<in> set (map snd v_scans)" for f
  proof -
    have "0 \<le> f" "f < 1" using that v_scans_fracs by auto
    from py_int_frac [OF this assms(2)] show ?thesis by (simp add: get_col_ok)
  qed
  have fr: "map snd h_scans = [0.40, 0.45, 0.50, 0.55, 0.60]" "map snd v_scans = [0.40, 0.50, 0.60]"
    by (simp_all add: h_scans_def v_scans_def)
  show ?thesis
    using rows cols fr analyze_grid_lines_ok [OF assms] by blast
qed

theorem scan_indices_in_bounds_witness:
  "1 \<le> lm_height \<lparr> lm_height = 1, lm_width = 1, lm_at = (\<lambda>y x. 0.5) \<rparr>
   \<and> 1 \<le> lm_width \<lparr> lm_height = 1, lm_width = 1, lm_at = (\<lambda>y x. 0.5) \<rparr>
   \<and> (\<exists>grid. analyze_grid_lines \<lparr> lm_height = 1, lm_width = 1, lm_at = (\<lambda>y x. 0.5) \<rparr> = Inr grid
          \<and> map fst grid = [''h_40%'', ''h_45%'', ''h_50%'', ''h_55%'', ''h_60%'',
                              ''v_40%'', ''v_50%'', ''v_60%''])"
proof -
  let ?b = "\<lparr> lm_height = 1, lm_width = 1, lm_at = (\<lambda>y x. 0.5 :: real) \<rparr>"
  have h: "1 \<le> lm_height ?b" and w: "1 \<le> lm_width ?b" by simp_all
  from scan_indices_in_bounds [OF h w]
  obtain grid where "analyze_grid_lines ?b = Inr grid"
    "map fst grid = map fst h_scans @ map fst v_scans"
    by blast
  then show ?thesis by (simp add: h_scans_def v_scans_def)
qed

section \<open>The luminance transform\<close>

text \<open>
  C9. On a three-channel pixel buffer with all channel values in \<open>[0,1]\<close>, \<open>brightness\<close>
  returns, without an error, a map of the same height and width whose value at every pixel
  is \<open>0.2126 R + 0.7152 G + 0.0722 B\<close> of that pixel, and that value lies in \<open>[0,1]\<close>.
\<close>

theorem brightness_weighted_sum:
  assumes "pb_channels pixels = 3"
    and "\<forall>y<pb_height pixels. \<forall>x<pb_width pixels. \<forall>k<3.
           0 \<le> pb_at pixels y x k \<and> pb_at pixels y x k \<le> 1"
  shows "\<exists>brt. brightness pixels = Inr brt
    \<and> lm_height brt = pb_height pixels \<and> lm_width brt = pb_width pixels
    \<and> (\<forall>y<pb_height pixels. \<forall>x<pb_width pixels.
          lm_at brt y x = 0.2126 * pb_at pixels y x 0 + 0.7152 * pb_at pixels y x 1
                          + 0.0722 * pb_at pixels y x 2
          \<and> 0 \<le> lm_at brt y x \<and> lm_at brt y x \<le> 1)"
proof -
  have bound: "0 \<le> 0.2126 * pb_at pixels y x 0 + 0.7152 * pb_at pixels y x 1
                    + 0.0722 * pb_at pixels y x 2
             \<and> 0.2126 * pb_at pixels y x 0 + 0.7152 * pb_at pixels y x 1
                    + 0.0722 * pb_at pixels y x 2 \<le> 1"
    if "y < pb_height pixels" "x < pb_width pixels" for y x
  proof -
    have "0 \<le> pb_at pixels y x 0 \<and> pb_at pixels y x 0 \<le> 1"
      "0 \<le> pb_at pixels y x 1 \<and> pb_at pixels y x 1 \<le> 1"
      "0 \<le> pb_at pixels y x 2 \<and> pb_at pixels y x 2 \<le> 1"
      using assms(2) that by simp_all
    then show ?thesis by simp
  qed
  show ?thesis using assms(1) bound by (simp add: brightness_def)
qed

theorem brightness_weighted_sum_witness:
  "\<exists>brt. brightness \<lparr> pb_height = 1, pb_width = 1, pb_channels = 3,
                        pb_at = (\<lambda>y x k. if k = 1 then 1 else 0.5) \<rparr> = Inr brt
     \<and> lm_height brt = 1 \<and> lm_width brt = 1 \<and> lm_at brt 0 0 = 0.8576"
proof -
  let ?p = "\<lparr> pb_height = 1, pb_width = 1, pb_channels = 3,
              pb_at = (\<lambda>y x k. if k = 1 then 1 else 0.5 :: real) \<rparr>"
  have c: "pb_channels ?p = 3" by simp
  have r: "\<forall>y<pb_height ?p. \<forall>x<pb_width ?p. \<forall>k<3. 0 \<le> pb_at ?p y x k \<and> pb_at ?p y x k \<le> 1"
    by simp
  from brightness_weighted_sum [OF c r] show ?thesis by auto
qed

section \<open>The reflection estimate\<close>

lemma frac_idx_floor: "0 \<le> f \<Longrightarrow> frac_idx n f = nat \<lfloor>real n * f\<rfloor>"
  by (simp add: frac_idx_def py_int_def)

lemma frac_idx_le:
  assumes "0 \<le> f" and "f \<le> 1"
  shows "frac_idx n f \<le> n"
proof -
  have "real n * f \<le> real n" using assms by (simp add: mult_left_le)
  then have "\<lfloor>real n * f\<rfloor> \<le> int n" by (simp add: floor_le_iff) 
  then show ?thesis using assms(1) by (simp add: frac_idx_floor)
qed

lemma in_slice2:
  "v \<in> set (slice2 brt r0 r1 c0 c1) \<longleftrightarrow>
     (\<exists>y x. r0 \<le> y \<and> y < r1 \<and> y < lm_height brt \<and> c0 \<le> x \<and> x < c1 \<and> x < lm_width brt
            \<and> v = lm_at brt y x)"
proof -
  have "set (slice2 brt r0 r1 c0 c1)
      = (\<Union>y\<in>{r0..<min r1 (lm_height brt)}. lm_at brt y ` {c0..<min c1 (lm_width brt)})"
    by (simp add: slice2_def)
  also have "\<dots> = {v. \<exists>y x. r0 \<le> y \<and> y < r1 \<and> y < lm_height brt \<and> c0 \<le> x \<and> x < c1
          \<and> x < lm_width brt \<and> v = lm_at brt y x}"
    by (force simp: image_iff)
  finally show ?thesis by simp
qed

lemma const_list: "\<forall>x \<in> set xs. x = c \<Longrightarrow> xs = replicate (length xs) c"
  by (induction xs) auto

lemma mean_of_replicate: "0 < n \<Longrightarrow> mean_of (replicate n c) = c"
  by (simp add: mean_of_def sum_list_replicate)

lemma np_std_replicate: "0 < n \<Longrightarrow> np_std (replicate n c) = 0"
  by (simp add: np_std_def mean_of_replicate mean_of_def sum_list_replicate)

lemma np_std_const:
  assumes "xs \<noteq> []" and "\<forall>x \<in> set xs. x = c"
  shows "np_std xs = 0"
proof -
  have "xs = replicate (length xs) c" using assms(2) by (rule const_list)
  moreover have "0 < length xs" using assms(1) by simp
  ultimately show ?thesis using np_std_replicate by metis
qed

lemma np_std_population:
  "np_std xs = sqrt (sum_list (map (\<lambda>x. (x - sum_list xs / real (length xs))\<^sup>2) xs)
                       / real (length xs))"
  by (simp add: np_std_def mean_of_def)

text \<open>
  C6. When the floor region, rows \<open>int(0.6 h)\<close> up to \<open>int(0.8 h)\<close> and columns
  \<open>int(0.2 w)\<close> up to \<open>int(0.8 w)\<close> (the upper bounds excluded), is not empty,
  \<open>analyze_reflection_quality\<close> returns: as the standard deviation, the root of the sum of
  the squared deviations from the mean over the number \<open>N\<close> of values (not \<open>N - 1\<close>),
  times 100; as the maximum, the largest value times 100; and the classification YES iff
  the deviation is above 3.0, WEAK iff it is above 1.0 and at most 3.0, NO iff it is at
  most 1.0. On a region of one value only, the deviation is 0 and the classification NO.
\<close>

theorem analyze_reflection_quality_std:
  fixes brt :: luminance_map
  defines "region \<equiv> slice2 brt (frac_idx (lm_height brt) 0.6) (frac_idx (lm_height brt) 0.8)
                             (frac_idx (lm_width brt) 0.2) (frac_idx (lm_width brt) 0.8)"
  assumes "region \<noteq> []"
  shows "\<exists>r. analyze_reflection_quality brt = Inr r
    \<and> (\<forall>v. v \<in> set region \<longleftrightarrow>
          (\<exists>y x. nat \<lfloor>real (lm_height brt) * 0.6\<rfloor> \<le> y \<and> y < nat \<lfloor>real (lm_height brt) * 0.8\<rfloor>
               \<and> nat \<lfloor>real (lm_width brt) * 0.2\<rfloor> \<le> x \<and> x < nat \<lfloor>real (lm_width brt) * 0.8\<rfloor>
               \<and> v = lm_at brt y x))
    \<and> floor_brightness_std r
        = sqrt (sum_list (map (\<lambda>x. (x - sum_list region / real (length region))\<^sup>2) region)
                 / real (length region)) * 100
    \<and> floor_max_brightness r = Max (set region) * 100
    \<and> (floor_has_variation r = ''YES'' \<longleftrightarrow> floor_brightness_std r > 3.0)
    \<and> (floor_has_variation r = ''WEAK'' \<longleftrightarrow>
          1.0 < floor_brightness_std r \<and> floor_brightness_std r \<le> 3.0)
    \<and> (floor_has_variation r = ''NO'' \<longleftrightarrow> floor_brightness_std r \<le> 1.0)
    \<and> ((\<exists>c. \<forall>v \<in> set region. v = c) \<longrightarrow>
          floor_brightness_std r = 0 \<and> floor_has_variation r = ''NO'')"
proof -
  let ?h = "lm_height brt" and ?w = "lm_width brt"
  have mem: "\<forall>v. v \<in> set region \<longleftrightarrow>
          (\<exists>y x. nat \<lfloor>real ?h * 0.6\<rfloor> \<le> y \<and> y < nat \<lfloor>real ?h * 0.8\<rfloor>
               \<and> nat \<lfloor>real ?w * 0.2\<rfloor> \<le> x \<and> x < nat \<lfloor>real ?w * 0.8\<rfloor>
               \<and> v = lm_at brt y x)"
  proof -
    have le: "frac_idx ?h 0.8 \<le> ?h" "frac_idx ?w 0.8 \<le> ?w"
      by (rule frac_idx_le; simp)+
    have e: "frac_idx ?h 0.6 = nat \<lfloor>real ?h * 0.6\<rfloor>" "frac_idx ?h 0.8 = nat \<lfloor>real ?h * 0.8\<rfloor>"
      "frac_idx ?w 0.2 = nat \<lfloor>real ?w * 0.2\<rfloor>" "frac_idx ?w 0.8 = nat \<lfloor>real ?w * 0.8\<rfloor>"
      by (rule frac_idx_floor; simp)+
    show ?thesis
      unfolding region_def in_slice2 e [symmetric]
    proof (intro allI iffI)
      fix v
      assume "\<exists>y x. frac_idx ?h 0.6 \<le> y \<and> y < frac_idx ?h 0.8 \<and> y < ?h
                \<and> frac_idx ?w 0.2 \<le> x \<and> x < frac_idx ?w 0.8 \<and> x < ?w \<and> v = lm_at brt y x"
      then show "\<exists>y x. frac_idx ?h 0.6 \<le> y \<and> y < frac_idx ?h 0.8
                \<and> frac_idx ?w 0.2 \<le> x \<and> x < frac_idx ?w 0.8 \<and> v = lm_at brt y x"
        by blast
    next
      fix v
      assume "\<exists>y x. frac_idx ?h 0.6 \<le> y \<and> y < frac_idx ?h 0.8
                \<and> frac_idx ?w 0.2 \<le> x \<and> x < frac_idx ?w 0.8 \<and> v = lm_at brt y x"
      then obtain y x where yx: "frac_idx ?h 0.6 \<le> y" "y < frac_idx ?h 0.8"
          "frac_idx ?w 0.2 \<le> x" "x < frac_idx ?w 0.8" "v = lm_at brt y x"
        by blast
      then have "y < ?h" "x < ?w" using le by linarith+
      with yx show "\<exists>y x. frac_idx ?h 0.6 \<le> y \<and> y < frac_idx ?h 0.8 \<and> y < ?h
                \<and> frac_idx ?w 0.2 \<le> x \<and> x < frac_idx ?w 0.8 \<and> x < ?w \<and> v = lm_at brt y x"
        by blast
    qed
  qed
  obtain r where r: "r = \<lparr> floor_brightness_std = np_std region * 100,
        floor_max_brightness = Max (set region) * 100,
        floor_has_variation = (if np_std region * 100 > 3.0 then ''YES''
            else if np_std region * 100 > 1.0 then ''WEAK'' else ''NO'') \<rparr>"
    by blast
  have res: "analyze_reflection_quality brt = Inr r"
    unfolding analyze_reflection_quality_def Let_def region_def [symmetric]
      np_max_nonempty [OF assms(2)] r
    by simp
  have uni: "floor_brightness_std r = 0 \<and> floor_has_variation r = ''NO''"
    if "\<exists>c. \<forall>v \<in> set region. v = c"
  proof -
    from that obtain c where "\<forall>v \<in> set region. v = c" by blast
    from np_std_const [OF assms(2) this] show ?thesis by (simp add: r)
  qed
  have cls: "(floor_has_variation r = ''YES'' \<longleftrightarrow> floor_brightness_std r > 3.0)
    \<and> (floor_has_variation r = ''WEAK'' \<longleftrightarrow>
          1.0 < floor_brightness_std r \<and> floor_brightness_std r \<le> 3.0)
    \<and> (floor_has_variation r = ''NO'' \<longleftrightarrow> floor_brightness_std r \<le> 1.0)"
    by (simp add: r)
  have vals: "floor_brightness_std r
        = sqrt (sum_list (map (\<lambda>x. (x - sum_list region / real (length region))\<^sup>2) region)
                 / real (length region)) * 100"
    "floor_max_brightness r = Max (set region) * 100"
    by (simp_all add: r np_std_population)
  show ?thesis
    using res mem uni cls vals by blast
qed


theorem analyze_reflection_quality_std_witness:
  "slice2 \<lparr> lm_height = 5, lm_width = 5, lm_at = (\<lambda>y x. 0.3) \<rparr> 3 4 1 4 = [0.3, 0.3, 0.3]
   \<and> (\<exists>r. analyze_reflection_quality \<lparr> lm_height = 5, lm_width = 5, lm_at = (\<lambda>y x. 0.3) \<rparr> = Inr r
          \<and> floor_brightness_std r = 0 \<and> floor_max_brightness r = 30
          \<and> floor_has_variation r = ''NO'')"
proof -
  let ?b = "\<lparr> lm_height = 5, lm_width = 5, lm_at = (\<lambda>y x. 0.3 :: real) \<rparr>"
  have idx: "frac_idx (lm_height ?b) 0.6 = 3" "frac_idx (lm_height ?b) 0.8 = 4"
    "frac_idx (lm_width ?b) 0.2 = 1" "frac_idx (lm_width ?b) 0.8 = 4"
    by (simp_all add: frac_idx_def py_int_def)
  have reg: "slice2 ?b 3 4 1 4 = [0.3, 0.3, 0.3]"
    by (simp add: slice2_def upt_rec)
  have ne: "slice2 ?b (frac_idx (lm_height ?b) 0.6) (frac_idx (lm_height ?b) 0.8)
                (frac_idx (lm_width ?b) 0.2) (frac_idx (lm_width ?b) 0.8) \<noteq> []"
    unfolding idx reg by simp
  from analyze_reflection_quality_std [OF ne]
  show ?thesis unfolding idx reg by (simp add: reg) force
qed

section \<open>The pipeline on a black image\<close>

lemma sort_replicate: "sort (replicate n (c::real)) = replicate n c"
  by (simp add: sorted_sort_id sorted_replicate)

lemma np_percentile_replicate:
  assumes "0 < n" and "0 \<le> q" and "q \<le> 100"
  shows "np_percentile (replicate n c) q = Inr c"
proof -
  let ?pos = "real (n - 1) * (q / 100)"
  have "?pos \<le> real (n - 1)" using assms(2,3) by (simp add: mult_left_mono)
  then have "\<lfloor>?pos\<rfloor> \<le> int (n - 1)" by (simp add: floor_le_iff)
  then have lo: "nat \<lfloor>?pos\<rfloor> < n" using assms(1) by linarith
  have hi: "min (nat \<lfloor>?pos\<rfloor> + 1) (n - 1) < n" using assms(1) by simp
  have ne: "replicate n c \<noteq> []" using assms(1) by simp
  show ?thesis
    unfolding np_percentile_def Let_def sort_replicate length_replicate
    using ne lo hi by simp
qed

lemma np_max_replicate: "0 < n \<Longrightarrow> np_max (replicate n c) = Inr c"
  by (simp add: np_max_def)

lemma np_median_replicate:
  assumes "0 < n"
  shows "np_median (replicate n c) = c"
proof -
  have "n div 2 < n" "n div 2 - 1 < n" using assms by simp_all
  then show ?thesis
    unfolding np_median_def Let_def sort_replicate length_replicate by simp
qed

lemma count_where_none: "\<forall>x \<in> set xs. \<not> P x \<Longrightarrow> count_where P xs = 0"
  by (simp add: count_where_def)

lemma scan_line_zero: "0 < n \<Longrightarrow> scan_line (replicate n 0) = Inr black_scan"
  by (simp add: scan_line_def np_percentile_replicate Let_def clamp_floor_def
      count_peaks_constant black_scan_def)

lemma slice2_zero:
  assumes "zero_map brt"
  shows "slice2 brt r0 r1 c0 c1
       = replicate ((min r1 (lm_height brt) - r0) * (min c1 (lm_width brt) - c0)) 0"
proof -
  have "\<forall>v \<in> set (slice2 brt r0 r1 c0 c1). v = 0"
    using assms by (auto simp: in_slice2 zero_map_def)
  from const_list [OF this] show ?thesis by (simp only: length_slice2)
qed

lemma flat_zero: "zero_map brt \<Longrightarrow> flat brt = replicate (lm_height brt * lm_width brt) 0"
  by (simp add: flat_def slice2_zero)

lemma row_zero:
  assumes "zero_map brt" and "j < lm_height brt"
  shows "map (lm_at brt j) [0..<lm_width brt] = replicate (lm_width brt) 0"
proof -
  have "\<forall>v \<in> set (map (lm_at brt j) [0..<lm_width brt]). v = 0"
    using assms by (auto simp: zero_map_def)
  from const_list [OF this] show ?thesis by simp
qed

lemma col_zero:
  assumes "zero_map brt" and "j < lm_width brt"
  shows "map (\<lambda>y. lm_at brt y j) [0..<lm_height brt] = replicate (lm_height brt) 0"
proof -
  have "\<forall>v \<in> set (map (\<lambda>y. lm_at brt y j) [0..<lm_height brt]). v = 0"
    using assms by (auto simp: zero_map_def)
  from const_list [OF this] show ?thesis by simp
qed

lemma scan_rows_zero:
  assumes "zero_map brt" and "1 \<le> lm_height brt" and "1 \<le> lm_width brt"
    and "\<forall>(name, f) \<in> set fs. 0 \<le> f \<and> f < 1"
  shows "scan_rows brt fs = Inr (map (\<lambda>(name, f). (name, black_scan)) fs)"
  using assms(4)
proof (induction fs)
  case Nil
  show ?case by simp
next
  case (Cons a fs)
  obtain name f where a: "a = (name, f)" by (cases a)
  have f: "0 \<le> f" "f < 1" using Cons.prems a by auto
  note idx = py_int_frac [OF f assms(2)]
  then have j: "nat (py_int (f * real (lm_height brt))) < lm_height brt" by linarith
  have row: "get_row brt (py_int (f * real (lm_height brt))) = Inr (replicate (lm_width brt) 0)"
    using idx by (simp add: get_row_ok row_zero [OF assms(1) j])
  have r: "scan_line (replicate (lm_width brt) 0) = Inr black_scan"
    using assms(3) by (simp add: scan_line_zero)
  have rs: "scan_rows brt fs = Inr (map (\<lambda>(name, f). (name, black_scan)) fs)"
    using Cons by auto
  show ?case by (simp add: a row r rs)
qed

lemma scan_cols_zero:
  assumes "zero_map brt" and "1 \<le> lm_height brt" and "1 \<le> lm_width brt"
    and "\<forall>(name, f) \<in> set fs. 0 \<le> f \<and> f < 1"
  shows "scan_cols brt fs = Inr (map (\<lambda>(name, f). (name, black_scan)) fs)"
  using assms(4)
proof (induction fs)
  case Nil
  show ?case by simp
next
  case (Cons a fs)
  obtain name f where a: "a = (name, f)" by (cases a)
  have f: "0 \<le> f" "f < 1" using Cons.prems a by auto
  note idx = py_int_frac [OF f assms(3)]
  then have j: "nat (py_int (f * real (lm_width brt))) < lm_width brt" by linarith
  have col: "get_col brt (py_int (f * real (lm_width brt))) = Inr (replicate (lm_height brt) 0)"
    using idx by (simp add: get_col_ok col_zero [OF assms(1) j])
  have r: "scan_line (replicate (lm_height brt) 0) = Inr black_scan"
    using assms(2) by (simp add: scan_line_zero)
  have rs: "scan_cols brt fs = Inr (map (\<lambda>(name, f). (name, black_scan)) fs)"
    using Cons by auto
  show ?case by (simp add: a col r rs)
qed

lemma analyze_grid_lines_zero:
  assumes "zero_map brt" and "1 \<le> lm_height brt" and "1 \<le> lm_width brt"
  shows "analyze_grid_lines brt = Inr black_grid"
  by (simp add: analyze_grid_lines_def black_grid_def
      scan_rows_zero [OF assms h_scans_fracs] scan_cols_zero [OF assms v_scans_fracs])

lemma distribution_zero:
  assumes "zero_map brt" and "1 \<le> lm_height brt" and "1 \<le> lm_width brt"
  shows "analyze_brightness_distribution brt = Inr black_distribution"
proof -
  let ?n = "lm_height brt * lm_width brt"
  have n: "0 < ?n" using assms(2,3) by simp
  have c: "count_where is_black (replicate ?n 0) = ?n"
    "count_where is_vdark (replicate ?n 0) = 0" "count_where is_dark (replicate ?n 0) = 0"
    "count_where is_mid (replicate ?n 0) = 0" "count_where is_bright (replicate ?n 0) = 0"
    "count_where is_hot (replicate ?n 0) = 0"
    by (simp_all add: count_where_def is_black_def is_vdark_def is_dark_def is_mid_def
        is_bright_def is_hot_def)
  show ?thesis
    unfolding analyze_brightness_distribution_def Let_def flat_zero [OF assms(1)] c
      np_percentile_replicate [OF n, of 95 0, simplified]
      np_percentile_replicate [OF n, of 99 0, simplified]
      np_max_replicate [OF n] np_median_replicate [OF n] mean_of_replicate [OF n]
    using n by (simp add: black_distribution_def)
qed

lemma frac_idx_lt:
  assumes "0 \<le> a" and "real n * a + 1 \<le> real n * b"
  shows "frac_idx n a < frac_idx n b"
proof -
  have na: "0 \<le> real n * a" using assms(1) by simp
  then have nb: "0 \<le> real n * b" using assms(2) by linarith
  have "\<lfloor>real n * a\<rfloor> + 1 = \<lfloor>real n * a + 1\<rfloor>" by simp
  also have "\<dots> \<le> \<lfloor>real n * b\<rfloor>" using assms(2) by (rule floor_mono)
  finally have "\<lfloor>real n * a\<rfloor> < \<lfloor>real n * b\<rfloor>" by simp
  moreover have "0 \<le> \<lfloor>real n * a\<rfloor>" using na by simp
  ultimately have "nat \<lfloor>real n * a\<rfloor> < nat \<lfloor>real n * b\<rfloor>" by linarith
  then show ?thesis
    using na nb by (simp add: frac_idx_def py_int_def)
qed

lemma rows_center: "4 \<le> h \<Longrightarrow> frac_idx h 0.3 < frac_idx h 0.7"
  by (rule frac_idx_lt) simp_all

lemma rows_bottom: "4 \<le> h \<Longrightarrow> frac_idx h 0.6 < frac_idx h 0.9"
  by (rule frac_idx_lt) simp_all

lemma rows_top: 
  assumes "4 \<le> h" 
  shows "frac_idx h 0.1 < frac_idx h 0.3"
proof (cases "h = 4")
  case True
  then show ?thesis by (simp add: frac_idx_def py_int_def)
next
  case False
  with assms have "5 \<le> h" by simp
  then show ?thesis by (intro frac_idx_lt) simp_all
qed

lemma rows_floor:
  assumes "4 \<le> h" 
  shows "frac_idx h 0.6 < frac_idx h 0.8"
proof (cases "h = 4")
  case True
  then show ?thesis by (simp add: frac_idx_def py_int_def)
next
  case False
  with assms have "5 \<le> h" by simp
  then show ?thesis by (intro frac_idx_lt) simp_all
qed

lemma cols_center:
  assumes "2 \<le> w" 
  shows "frac_idx w 0.3 < frac_idx w 0.7"
proof (cases "w = 2")
  case True
  then show ?thesis by (simp add: frac_idx_def py_int_def)
next
  case False
  with assms have "3 \<le> w" by simp
  then show ?thesis by (intro frac_idx_lt) simp_all
qed

lemma cols_wide: "2 \<le> w \<Longrightarrow> frac_idx w 0.2 < frac_idx w 0.8"
  by (rule frac_idx_lt) simp_all

lemma slice2_zero_nonempty:
  assumes "zero_map brt" and "r0 < r1" and "r1 \<le> lm_height brt"
    and "c0 < c1" and "c1 \<le> lm_width brt"
  shows "\<exists>n>0. slice2 brt r0 r1 c0 c1 = replicate n 0"
proof -
  have "0 < (min r1 (lm_height brt) - r0) * (min c1 (lm_width brt) - c0)"
    using assms(2-5) by (simp add: min_absorb1)
  then show ?thesis using slice2_zero [OF assms(1)] by blast
qed

lemma analyze_regions_zero:
  assumes "zero_map brt" and "4 \<le> lm_height brt" and "2 \<le> lm_width brt"
  shows "\<exists>regions. analyze_regions brt = Inr regions"
proof -
  let ?h = "lm_height brt" and ?w = "lm_width brt"
  have le: "frac_idx ?h 0.7 \<le> ?h" "frac_idx ?h 0.9 \<le> ?h" "frac_idx ?h 0.3 \<le> ?h"
    "frac_idx ?w 0.7 \<le> ?w" "frac_idx ?w 0.8 \<le> ?w"
    by (rule frac_idx_le; simp)+
  obtain n1 where n1: "0 < n1"
    "slice2 brt (frac_idx ?h 0.3) (frac_idx ?h 0.7) (frac_idx ?w 0.3) (frac_idx ?w 0.7)
       = replicate n1 0"
    using slice2_zero_nonempty [OF assms(1) rows_center [OF assms(2)] le(1)
        cols_center [OF assms(3)] le(4)] by blast
  obtain n2 where n2: "0 < n2"
    "slice2 brt (frac_idx ?h 0.6) (frac_idx ?h 0.9) (frac_idx ?w 0.2) (frac_idx ?w 0.8)
       = replicate n2 0"
    using slice2_zero_nonempty [OF assms(1) rows_bottom [OF assms(2)] le(2)
        cols_wide [OF assms(3)] le(5)] by blast
  obtain n3 where n3: "0 < n3"
    "slice2 brt (frac_idx ?h 0.1) (frac_idx ?h 0.3) (frac_idx ?w 0.2) (frac_idx ?w 0.8)
       = replicate n3 0"
    using slice2_zero_nonempty [OF assms(1) rows_top [OF assms(2)] le(3)
        cols_wide [OF assms(3)] le(5)] by blast
  show ?thesis
    unfolding analyze_regions_def Let_def n1(2) n2(2) n3(2)
      np_percentile_replicate [OF n1(1), of 95 0, simplified]
      np_percentile_replicate [OF n2(1), of 95 0, simplified]
      np_percentile_replicate [OF n3(1), of 95 0, simplified]
    by simp
qed

lemma analyze_reflection_quality_zero:
  assumes "zero_map brt" and "4 \<le> lm_height brt" and "2 \<le> lm_width brt"
  shows "analyze_reflection_quality brt = Inr black_reflections"
proof -
  let ?h = "lm_height brt" and ?w = "lm_width brt"
  have le: "frac_idx ?h 0.8 \<le> ?h" "frac_idx ?w 0.8 \<le> ?w"
    by (rule frac_idx_le; simp)+
  obtain n where n: "0 < n"
    "slice2 brt (frac_idx ?h 0.6) (frac_idx ?h 0.8) (frac_idx ?w 0.2) (frac_idx ?w 0.8)
       = replicate n 0"
    using slice2_zero_nonempty [OF assms(1) rows_floor [OF assms(2)] le(1)
        cols_wide [OF assms(3)] le(2)] by blast
  show ?thesis
    unfolding analyze_reflection_quality_def Let_def n(2)
      np_std_replicate [OF n(1)] np_max_replicate [OF n(1)]
    by (simp add: black_reflections_def)
qed

lemma rgb_of_black: "all_black img \<Longrightarrow> \<forall>p \<in> set (rgb_of img). p = (0, 0, 0)"
  by (auto simp: all_black_def rgb_of_def)

lemma analyze_color_channels_black:
  assumes "all_black img"
  shows "analyze_color_channels img = Inr black_colors"
proof -
  note b = rgb_of_black [OF assms]
  have "count_where is_cyan (rgb_of img) = 0" "count_where is_warm (rgb_of img) = 0"
    "count_where is_purple (rgb_of img) = 0" "count_where is_green (rgb_of img) = 0"
    "count_where is_white (rgb_of img) = 0"
    using b by (auto intro!: count_where_none
        simp: is_cyan_def is_warm_def is_purple_def is_green_def is_white_def)
  moreover have "pb_channels img = 3" using assms by (simp add: all_black_def)
  ultimately show ?thesis
    by (simp add: analyze_color_channels_def Let_def black_colors_def)
qed

lemma brightness_black:
  assumes "all_black img"
  shows "\<exists>brt. brightness img = Inr brt \<and> zero_map brt
           \<and> lm_height brt = pb_height img \<and> lm_width brt = pb_width img"
  using assms by (simp add: brightness_def all_black_def zero_map_def)

lemma main_all_black:
  assumes "all_black img" and "4 \<le> pb_height img" and "2 \<le> pb_width img"
  shows "\<exists>regions. main img = Inr (format_report black_distribution black_grid black_colors
           regions black_reflections (pb_width img, pb_height img))"
proof -
  obtain brt where brt: "brightness img = Inr brt" "zero_map brt"
    "lm_height brt = pb_height img" "lm_width brt = pb_width img"
    using brightness_black [OF assms(1)] by blast
  have h4: "4 \<le> lm_height brt" and w2: "2 \<le> lm_width brt"
    and h1: "1 \<le> lm_height brt" and w1: "1 \<le> lm_width brt"
    using assms(2,3) brt(3,4) by simp_all
  obtain regions where rg: "analyze_regions brt = Inr regions"
    using analyze_regions_zero [OF brt(2) h4 w2] by blast
  show ?thesis
    unfolding main_def brt(1) and_then_Inr Let_def
      distribution_zero [OF brt(2) h1 w1] analyze_grid_lines_zero [OF brt(2) h1 w1]
      analyze_color_channels_black [OF assms(1)] rg
      analyze_reflection_quality_zero [OF brt(2) h4 w2]
    by blast
qed

lemma black_grid_eq:
  "black_grid = map (\<lambda>name. (name, black_scan))
     [''h_40%'', ''h_45%'', ''h_50%'', ''h_55%'', ''h_60%'', ''v_40%'', ''v_50%'', ''v_60%'']"
  by (simp add: black_grid_def h_scans_def v_scans_def)

lemma black_grid_contrasts:
  "map (\<lambda>(name, d). contrast_ratio d) black_grid = [0, 0, 0, 0, 0, 0, 0, 0]"
  by (simp add: black_grid_eq black_scan_def)

lemma black_grid_peaks:
  "map (\<lambda>(name, d). real_of_int (peak_count d)) black_grid = [0, 0, 0, 0, 0, 0, 0, 0]"
  by (simp add: black_grid_eq black_scan_def)

lemma black_report:
  fixes regions :: region_report and dims :: "nat \<times> nat"
  defines "r \<equiv> format_report black_distribution black_grid black_colors regions
                  black_reflections dims"
  shows "r_distribution r = black_distribution" and "r_grid r = black_grid"
    and "r_colors r = black_colors" and "r_reflections r = black_reflections"
    and "avg_contrast r = 0" and "grid_verdict r = INVISIBLE"
    and "issues r = [TOO_DARK, NO_GRID_FLOOR, LOW_CONTRAST, NO_CYAN, NO_SSR]"
  unfolding r_def format_report_def Let_def black_grid_contrasts black_grid_peaks
  by (simp_all add: mean_of_def black_distribution_def black_colors_def black_reflections_def)

lemma all_black_black_image: "all_black (black_image h w 3)"
  by (simp add: all_black_def black_image_def)

text \<open>On one black pixel the centre region is empty, and its percentile raises.\<close>

lemma one_pixel_fails: "main (black_image 1 1 3) = Inl IndexError"
proof -
  let ?brt = "\<lparr> lm_height = 1, lm_width = 1, lm_at = (\<lambda>y x. 0 :: real) \<rparr>"
  have b: "brightness (black_image 1 1 3) = Inr ?brt"
    by (simp add: brightness_def black_image_def)
  have z: "zero_map ?brt" by (simp add: zero_map_def)
  have d: "analyze_brightness_distribution ?brt = Inr black_distribution"
    by (rule distribution_zero [OF z]) simp_all
  have g: "analyze_grid_lines ?brt = Inr black_grid"
    by (rule analyze_grid_lines_zero [OF z]) simp_all
  have c: "analyze_color_channels (black_image 1 1 3) = Inr black_colors"
    by (rule analyze_color_channels_black [OF all_black_black_image])
  have i: "frac_idx 1 0.3 = 0" "frac_idx 1 0.7 = 0"
    by (simp_all add: frac_idx_def py_int_def)
  have r: "analyze_regions ?brt = Inl IndexError"
    by (simp add: analyze_regions_def Let_def i slice2_def np_percentile_def)
  show ?thesis
    unfolding main_def b and_then_Inr Let_def d g c r by simp
qed

text \<open>
  C2, as amended. For an all-black three-channel pixel buffer with at least 4 rows and
  2 columns, \<open>main\<close> returns a report in which: the black band is 100 and the five other
  bands are 0; the five colour percentages are 0; the contrast ratio of each of the eight
  scan lines is 0 (the 90th percentile, 0, over the clamped floor 0.001); the reflection
  deviation is 0 and its classification NO; and the issues are TOO DARK, NO GRID FLOOR,
  LOW CONTRAST, NO CYAN and NO SSR, without BLOOM OVERLOAD.
\<close>

theorem all_black_pipeline:
  assumes "all_black img" and "4 \<le> pb_height img" and "2 \<le> pb_width img"
  shows "\<exists>r. main img = Inr r
    \<and> black (r_distribution r) = 100 \<and> very_dark (r_distribution r) = 0
    \<and> dark (r_distribution r) = 0 \<and> mid (r_distribution r) = 0
    \<and> bright (r_distribution r) = 0 \<and> hot (r_distribution r) = 0
    \<and> cyan_teal (r_colors r) = 0 \<and> warm_red_orange (r_colors r) = 0
    \<and> purple_magenta (r_colors r) = 0 \<and> green (r_colors r) = 0 \<and> white_hot (r_colors r) = 0
    \<and> map fst (r_grid r) = [''h_40%'', ''h_45%'', ''h_50%'', ''h_55%'', ''h_60%'',
                              ''v_40%'', ''v_50%'', ''v_60%'']
    \<and> map (\<lambda>(name, d). contrast_ratio d) (r_grid r) = [0, 0, 0, 0, 0, 0, 0, 0]
    \<and> floor_brightness_std (r_reflections r) = 0
    \<and> floor_has_variation (r_reflections r) = ''NO''
    \<and> issues r = [TOO_DARK, NO_GRID_FLOOR, LOW_CONTRAST, NO_CYAN, NO_SSR]
    \<and> BLOOM_OVERLOAD \<notin> set (issues r)"
proof -
  obtain regions where m: "main img = Inr (format_report black_distribution black_grid
      black_colors regions black_reflections (pb_width img, pb_height img))"
    using main_all_black [OF assms] by blast
  have names: "map fst black_grid = [''h_40%'', ''h_45%'', ''h_50%'', ''h_55%'', ''h_60%'',
                              ''v_40%'', ''v_50%'', ''v_60%'']"
    by (simp add: black_grid_eq)
  show ?thesis
    unfolding m
    by (simp add: black_report names black_grid_contrasts)
       (simp add: black_distribution_def black_colors_def black_reflections_def)
qed

theorem all_black_pipeline_witness:
  "all_black (black_image 4 2 3) \<and> 4 \<le> pb_height (black_image 4 2 3)
   \<and> 2 \<le> pb_width (black_image 4 2 3)
   \<and> (\<exists>r. main (black_image 4 2 3) = Inr r
          \<and> black (r_distribution r) = 100
          \<and> map (\<lambda>(name, d). contrast_ratio d) (r_grid r) = [0, 0, 0, 0, 0, 0, 0, 0]
          \<and> issues r = [TOO_DARK, NO_GRID_FLOOR, LOW_CONTRAST, NO_CYAN, NO_SSR])"
proof -
  have b: "all_black (black_image 4 2 3)" by (rule all_black_black_image)
  have h: "4 \<le> pb_height (black_image 4 2 3)" and w: "2 \<le> pb_width (black_image 4 2 3)"
    by (simp_all add: black_image_def)
  from all_black_pipeline [OF b h w]
  obtain r where "main (black_image 4 2 3) = Inr r" "black (r_distribution r) = 100"
    "map (\<lambda>(name, d). contrast_ratio d) (r_grid r) = [0, 0, 0, 0, 0, 0, 0, 0]"
    "issues r = [TOO_DARK, NO_GRID_FLOOR, LOW_CONTRAST, NO_CYAN, NO_SSR]"
    by auto
  with b h w show ?thesis by simp
qed

text \<open>On the all-black image of 10 by 10 pixels every contrast ratio is 0, not 1; on the
  all-black image of one pixel there is no report.\<close>

theorem all_black_contrast_counterexample:
  "grid_contrasts (main (black_image 10 10 3)) = Inr [0, 0, 0, 0, 0, 0, 0, 0]
   \<and> grid_contrasts (main (black_image 10 10 3)) \<noteq> Inr [1, 1, 1, 1, 1, 1, 1, 1]
   \<and> isl (main (black_image 1 1 3))"
proof -
  have "4 \<le> pb_height (black_image 10 10 3)" "2 \<le> pb_width (black_image 10 10 3)"
    by (simp_all add: black_image_def)
  from main_all_black [OF all_black_black_image this]
  obtain regions where "main (black_image 10 10 3) = Inr (format_report black_distribution
      black_grid black_colors regions black_reflections
      (pb_width (black_image 10 10 3), pb_height (black_image 10 10 3)))"
    by blast
  then have "grid_contrasts (main (black_image 10 10 3)) = Inr [0, 0, 0, 0, 0, 0, 0, 0]"
    by (simp add: grid_contrasts_def black_report black_grid_contrasts)
  moreover have "isl (main (black_image 1 1 3))"
    unfolding one_pixel_fails by simp
  ultimately show ?thesis by simp
qed

section \<open>Buffers that are not height by width by 3\<close>

lemma main_few_channels: "pb_channels img < 3 \<Longrightarrow> main img = Inl IndexError"
  by (simp add: main_def brightness_def)

lemma main_no_pixels:
  assumes "pb_height img * pb_width img = 0"
  shows "main img = Inl IndexError"
proof (cases "pb_channels img < 3")
  case True
  then show ?thesis by (rule main_few_channels)
next
  case False
  let ?brt = "\<lparr> lm_height = pb_height img, lm_width = pb_width img,
      lm_at = (\<lambda>y x. 0.2126 * pb_at img y x 0 + 0.7152 * pb_at img y x 1
                       + 0.0722 * pb_at img y x 2) \<rparr>"
  have b: "brightness img = Inr ?brt" using False by (simp add: brightness_def)
  have "length (flat ?brt) = 0" using assms by (simp add: length_flat)
  then have "flat ?brt = []" by simp
  then have "analyze_brightness_distribution ?brt = Inl IndexError"
    by (simp add: analyze_brightness_distribution_def np_percentile_def)
  then show ?thesis unfolding main_def b by simp
qed

lemma main_more_channels:
  assumes "3 \<le> pb_channels img"
  shows "main img = main (img\<lparr>pb_channels := 3\<rparr>)"
proof -
  have c: "\<not> pb_channels img < 3" using assms by simp
  have b: "brightness (img\<lparr>pb_channels := 3\<rparr>) = brightness img"
    using c by (simp add: brightness_def)
  have a: "analyze_color_channels (img\<lparr>pb_channels := 3\<rparr>) = analyze_color_channels img"
    using c by (simp add: analyze_color_channels_def rgb_of_def)
  show ?thesis
    unfolding main_def [of "img\<lparr>pb_channels := 3\<rparr>"] b a
    by (simp add: main_def)
qed

text \<open>
  C8, as amended. \<open>main\<close> validates nothing and has no error of its own. On a buffer
  with fewer than three channels it stops with the IndexError of the first channel read;
  on a buffer with no pixel it stops with an exception of the numerical library; in both
  cases before any report exists. On a buffer with more than three channels it returns
  what it returns on the first three channels.
\<close>

theorem malformed_buffer_raises:
  "(pb_channels img < 3 \<longrightarrow> main img = Inl IndexError)
   \<and> (pb_height img * pb_width img = 0 \<longrightarrow> isl (main img))
   \<and> (3 \<le> pb_channels img \<longrightarrow> main img = main (img\<lparr>pb_channels := 3\<rparr>))"
proof (intro conjI impI)
  assume "pb_channels img < 3"
  then show "main img = Inl IndexError" by (rule main_few_channels)
next
  assume "pb_height img * pb_width img = 0"
  then have "main img = Inl IndexError" by (rule main_no_pixels)
  then show "isl (main img)" by simp
next
  assume "3 \<le> pb_channels img"
  then show "main img = main (img\<lparr>pb_channels := 3\<rparr>)" by (rule main_more_channels)
qed

theorem malformed_buffer_raises_witness:
  "main (black_image 10 10 2) = Inl IndexError
   \<and> isl (main (black_image 0 7 3))
   \<and> main (black_image 10 10 4) = main (black_image 10 10 3)"
proof -
  have eq: "black_image 10 10 4\<lparr>pb_channels := 3\<rparr> = black_image 10 10 3"
    by (simp add: black_image_def)
  have c2: "pb_channels (black_image 10 10 2) < 3"
    and e: "pb_height (black_image 0 7 3) * pb_width (black_image 0 7 3) = 0"
    and c4: "3 \<le> pb_channels (black_image 10 10 4)"
    by (simp_all add: black_image_def)
  have "main (black_image 10 10 2) = Inl IndexError"
    using malformed_buffer_raises [of "black_image 10 10 2"] c2 by blast
  moreover have "isl (main (black_image 0 7 3))"
    using malformed_buffer_raises [of "black_image 0 7 3"] e by blast
  moreover have "main (black_image 10 10 4) = main (black_image 10 10 3)"
    using malformed_buffer_raises [of "black_image 10 10 4"] c4 unfolding eq by blast
  ultimately show ?thesis by blast
qed

text \<open>A black image of 10 by 10 pixels with four channels is analysed: no error.\<close>

theorem four_channel_buffer_counterexample:
  "\<not> isl (main (black_image 10 10 4))"
proof -
  have eq: "black_image 10 10 4\<lparr>pb_channels := 3\<rparr> = black_image 10 10 3"
    by (simp add: black_image_def)
  have c: "3 \<le> pb_channels (black_image 10 10 4)" by (simp add: black_image_def)
  have "4 \<le> pb_height (black_image 10 10 3)" "2 \<le> pb_width (black_image 10 10 3)"
    by (simp_all add: black_image_def)
  from main_all_black [OF all_black_black_image this]
  obtain regions where "main (black_image 10 10 3) = Inr (format_report black_distribution
      black_grid black_colors regions black_reflections
      (pb_width (black_image 10 10 3), pb_height (black_image 10 10 3)))"
    by blast
  then have "\<not> isl (main (black_image 10 10 3))" by simp
  moreover have "main (black_image 10 10 4) = main (black_image 10 10 3)"
    using main_more_channels [OF c] unfolding eq .
  ultimately show ?thesis by simp
qed

end
